theory Spec2Isabelle
  imports Main "HOL-Library.AList"
begin

section \<open>Python values and exceptions\<close>

text \<open>
  The exceptions that the embedded functions can raise.  \<open>ValueError\<close> carries the message
  built by the raising statement.  \<open>OverflowError\<close> is what CPython raises when the result
  of a true division of two integers does not fit a double.  \<open>Propagated\<close> stands for an
  exception raised inside a collaborator that is not part of the embedded code (the URL
  parser, the size-class helper, the dynamic import); it carries the name of the class of
  the exception.
\<close>

datatype error =
    ValueError string
  | OverflowError
  | KeyError string
  | TypeError
  | AttributeError
  | Propagated string

section \<open>Integer helpers of the Python runtime\<close>

text \<open>\<open>int.bit_length\<close> of a non-negative integer.\<close>

function bit_length :: "int \<Rightarrow> nat" where
  "bit_length n = (if n \<le> 0 then 0 else Suc (bit_length (n div 2)))"
  by pat_completeness auto
termination
  by (relation "measure nat") auto

declare bit_length.simps [simp del]

text \<open>
  The nearest integer with at most 53 significant bits, ties going to the even
  significand: the value a double holds after a correctly rounded conversion of a
  non-negative integer.
\<close>

definition round_to_double :: "int \<Rightarrow> int" where
  "round_to_double n =
     (let e = bit_length n - 53 in
      if e = 0 then n
      else
        let q = n div 2 ^ e; r = n mod 2 ^ e in
        (if 2 ^ e < 2 * r \<or> (2 * r = 2 ^ e \<and> odd q) then q + 1 else q) * 2 ^ e)"

text \<open>
  \<open>int(floor(x / 2))\<close>.  In Python 3 the operator \<open>/\<close> on two integers is true division:
  it yields the double nearest to the exact quotient and raises \<open>OverflowError\<close> when that
  double would not be finite (the rounded quotient reaches \<open>2 ^ 1024\<close>).  Halving only
  changes the exponent, so the quotient is half of the operand rounded to 53 bits;
  \<open>floor\<close> and \<open>int\<close> are exact on the result.
\<close>

definition floor_truediv_2 :: "int \<Rightarrow> error + int" where
  "floor_truediv_2 x =
     (let m = round_to_double \<bar>x\<bar> in
      if 2 ^ 1025 \<le> m then Inl OverflowError
      else Inr ((sgn x * m) div 2))"

text \<open>The decimal digits of an integer, with a minus sign when negative.\<close>

fun str_nat :: "nat \<Rightarrow> string" where
  "str_nat n =
     (if n < 10 then [char_of (48 + n)]
      else str_nat (n div 10) @ [char_of (48 + n mod 10)])"

declare str_nat.simps [simp del]

definition decimal :: "int \<Rightarrow> string" where
  "decimal i = (if i < 0 then CHR ''-'' # str_nat (nat (- i)) else str_nat (nat i))"

text \<open>
  The message of the \<open>ValueError\<close> that CPython raises when an integer with more digits
  than the limit is converted to a string.
\<close>

definition digit_limit_message :: "nat \<Rightarrow> string" where
  "digit_limit_message max_digits =
     ''Exceeds the limit ('' @ str_nat max_digits
       @ '' digits) for integer string conversion; ''
       @ ''use sys.set_int_max_str_digits() to increase the limit''"

text \<open>
  \<open>str\<close> of an integer, which is also how an f-string formats it.  The interpreter has a
  limit on the number of digits (\<open>sys.get_int_max_str_digits()\<close>: 4300 by default, 0 for
  no limit, otherwise at least 640); an integer with more digits raises \<open>ValueError\<close>,
  and \<open>Inl\<close> carries its message.  An integer has more than \<open>n\<close> digits when its
  absolute value is at least \<open>10 ^ n\<close>.
\<close>

definition str_int :: "nat \<Rightarrow> int \<Rightarrow> string + string" where
  "str_int max_digits i =
     (if 0 < max_digits \<and> 10 ^ max_digits \<le> \<bar>i\<bar> then Inl (digit_limit_message max_digits)
      else Inr (decimal i))"

section \<open>The pagination window\<close>

text \<open>
  Lines 742 to 766 of \<open>get_pagination_context\<close>: the window of page numbers and the two
  jump targets, from \<open>pages_to_show\<close>, \<open>page.paginator.num_pages\<close> and \<open>page.number\<close>.
  \<open>None\<close> is Python's \<open>None\<close>.
\<close>

record window =
  first_page :: int
  last_page :: int
  pages_shown :: "int list"
  pages_back :: "int option"
  pages_forward :: "int option"

definition compute_window :: "int \<Rightarrow> int \<Rightarrow> int \<Rightarrow> error + window" where
  "compute_window pages_to_show num_pages current_page =
     (case floor_truediv_2 pages_to_show of
        Inl e \<Rightarrow> Inl e
      | Inr delta_pages \<Rightarrow>
          let first_page0 = max 1 (current_page - delta_pages);
              pages_back0 =
                (if 1 < first_page0 then Some (max 1 (first_page0 - delta_pages)) else None);
              last_page0 = first_page0 + pages_to_show - 1;
              last_page1 = (if pages_back0 = None then last_page0 + 1 else last_page0);
              last_page2 = (if num_pages < last_page1 then num_pages else last_page1)
          in
            if last_page2 < num_pages then
              Inr \<lparr>first_page = first_page0, last_page = last_page2,
                   pages_shown = [first_page0..last_page2],
                   pages_back = pages_back0,
                   pages_forward = Some (min (last_page2 + delta_pages) num_pages)\<rparr>
            else
              let first_page1 = (if 1 < first_page0 then first_page0 - 1 else first_page0);
                  pages_back1 =
                    (case pages_back0 of
                       Some b \<Rightarrow> if 1 < b then Some (b - 1) else None
                     | None \<Rightarrow> None)
              in
                Inr \<lparr>first_page = first_page1, last_page = last_page2,
                     pages_shown = [first_page1..last_page2],
                     pages_back = pages_back1,
                     pages_forward = None\<rparr>)"

text \<open>
  The reference algorithm of section 4.3 of the specification, step by step in the
  specification's own words, with \<open>delta = floor(windowSize / 2)\<close> the mathematical
  floor.  It is the yardstick for \<open>compute_window\<close>, not a translation of the source.
\<close>

definition computeWindow_spec :: "int \<Rightarrow> int \<Rightarrow> int \<Rightarrow> window" where
  "computeWindow_spec windowSize totalPages currentPage =
     (let delta = windowSize div 2;
          firstPage = max 1 (currentPage - delta);
          backTarget = (if firstPage > 1 then Some (max 1 (firstPage - delta)) else None);
          lastPage = firstPage + windowSize - 1;
          lastPage = (if backTarget = None then lastPage + 1 else lastPage);
          lastPage = min lastPage totalPages;
          forwardTarget = (if lastPage < totalPages then Some (min (lastPage + delta) totalPages) else None);
          firstPage' = (if lastPage < totalPages then firstPage
                        else if firstPage > 1 then firstPage - 1 else firstPage);
          backTarget' = (if lastPage < totalPages then backTarget
                         else (case backTarget of
                                 Some b \<Rightarrow> if b > 1 then Some (b - 1) else None
                               | None \<Rightarrow> None))
      in \<lparr>first_page = firstPage', last_page = lastPage,
          pages_shown = [firstPage'..lastPage],
          pages_back = backTarget', pages_forward = forwardTarget\<rparr>)"

section \<open>Collaborators of the pagination tag\<close>

text \<open>
  \<open>urllib.parse.ParseResult\<close>: the six components of a URL.
\<close>

record parse_result =
  scheme :: string
  netloc :: string
  path :: string
  params :: string
  query :: string
  fragment :: string

text \<open>
  A Python \<open>dict\<close> from strings to lists of strings, as the list of its items in
  insertion order.  Storing under a key that is present keeps the key's position,
  storing under a new key appends an item: this is \<open>AList.update\<close>.
\<close>

type_synonym query_params = "(string \<times> string list) list"

text \<open>
  The functions that \<open>get_pagination_context\<close> calls and that are not part of the embedded
  source: \<open>urlparse\<close>, \<open>parse_qs\<close> and \<open>urlunparse\<close> of \<open>urllib.parse\<close>,
  \<open>urlencode\<close> of \<open>django.utils.http\<close> (always called with \<open>doseq=True\<close>), and
  \<open>get_size_class\<close>, a name the module uses without binding it.  They are parameters of
  the embedding.  \<open>urlparse\<close>, \<open>urlencode\<close> and \<open>get_size_class\<close> may raise: \<open>Inl\<close> carries the name
  of the class of the exception, which the caller sees as \<open>Propagated\<close>.  The last field
  is a setting of the interpreter: the limit on the digits of an integer that is converted
  to a string.
\<close>

record lib =
  urlparse :: "string \<Rightarrow> string + parse_result"
  parse_qs :: "string \<Rightarrow> query_params"
  urlencode :: "query_params \<Rightarrow> string + string"
  urlunparse :: "parse_result \<Rightarrow> string"
  get_size_class :: "string \<Rightarrow> string \<Rightarrow> string \<Rightarrow> string + string"
  int_max_str_digits :: nat

section \<open>The URL of the pagination links\<close>

text \<open>Truth value of an optional string: \<open>None\<close> and the empty string are false.\<close>

definition truthy :: "string option \<Rightarrow> bool" where
  "truthy s = (case s of None \<Rightarrow> False | Some t \<Rightarrow> t \<noteq> [])"

text \<open>\<open>s or ""\<close>.\<close>

definition or_empty :: "string option \<Rightarrow> string" where
  "or_empty s = (case s of None \<Rightarrow> [] | Some t \<Rightarrow> t)"

text \<open>\<open>params.update(other)\<close>: the items of \<open>other\<close> are stored one by one, in order.\<close>

definition dict_update :: "query_params \<Rightarrow> query_params \<Rightarrow> query_params" where
  "dict_update params0 other = fold (\<lambda>(k, v). AList.update k v) other params0"

text \<open>
  The dictionary handed to \<open>urlencode\<close>: the query of the parsed URL, updated with the
  parsed \<open>extra\<close> when \<open>extra\<close> is true.
\<close>

definition merged_params :: "lib \<Rightarrow> parse_result \<Rightarrow> string option \<Rightarrow> query_params" where
  "merged_params l parts extra =
     (let params0 = parse_qs l (query parts) in
      if truthy extra then dict_update params0 (parse_qs l (or_empty extra)) else params0)"

text \<open>
  Lines 768 to 781.  The arguments of \<open>urlunparse\<close> are evaluated first, so an exception
  of \<open>urlencode\<close> ends the step before \<open>urlunparse\<close> is called.
\<close>

definition rebuild_url :: "lib \<Rightarrow> string option \<Rightarrow> string option \<Rightarrow> error + string" where
  "rebuild_url l url extra =
     (case urlparse l (or_empty url) of
        Inl e \<Rightarrow> Inl (Propagated e)
      | Inr parts \<Rightarrow>
          (case urlencode l (merged_params l parts extra) of
             Inl e \<Rightarrow> Inl (Propagated e)
           | Inr encoded \<Rightarrow>
               Inr (urlunparse l
                      \<lparr>scheme = scheme parts, netloc = netloc parts, path = path parts,
                       params = params parts, query = encoded,
                       fragment = fragment parts\<rparr>)))"

section \<open>The CSS classes of the pagination element\<close>

text \<open>\<open>" ".join(xs)\<close>.\<close>

fun join_space :: "string list \<Rightarrow> string" where
  "join_space [] = []"
| "join_space [x] = x"
| "join_space (x # y # ys) = x @ CHR '' '' # join_space (y # ys)"

definition apostrophe :: char where
  "apostrophe = CHR 0x27"

text \<open>The message of line 737 when the value can be formatted.\<close>

definition pages_to_show_message :: "int \<Rightarrow> string" where
  "pages_to_show_message pages_to_show =
     ''Pagination pages_to_show should be a positive integer, you specified ''
       @ decimal pages_to_show @ ''.''"

text \<open>
  The \<open>ValueError\<close> that line 737 raises: the f-string is evaluated first, and when the
  value has too many digits to be formatted the exception of the conversion is raised
  in place of the one that the statement builds.
\<close>

definition pages_to_show_error :: "lib \<Rightarrow> int \<Rightarrow> error" where
  "pages_to_show_error l pages_to_show =
     (case str_int (int_max_str_digits l) pages_to_show of
        Inl limit_message \<Rightarrow> ValueError limit_message
      | Inr digits \<Rightarrow>
          ValueError
            (''Pagination pages_to_show should be a positive integer, you specified ''
               @ digits @ ''.''))"

text \<open>The message of the \<open>ValueError\<close> of lines 793 to 796.\<close>

definition justify_content_message :: "string \<Rightarrow> string" where
  "justify_content_message justify_content =
     ''Invalid value '' @ [apostrophe] @ justify_content @ [apostrophe]
       @ '' for pagination justification. Valid values are ''
       @ [apostrophe] @ ''start'' @ [apostrophe] @ '', ''
       @ [apostrophe] @ ''center'' @ [apostrophe] @ '', ''
       @ [apostrophe] @ ''end'' @ [apostrophe] @ ''.''"

text \<open>Lines 783 to 787: the list of classes after the \<open>size\<close> option.\<close>

definition size_classes :: "lib \<Rightarrow> string option \<Rightarrow> error + string list" where
  "size_classes l size_opt =
     (if truthy size_opt then
        (case get_size_class l (or_empty size_opt) ''pagination'' ''md'' of
           Inl e \<Rightarrow> Inl (Propagated e)
         | Inr pagination_size_class \<Rightarrow>
             if pagination_size_class \<noteq> [] then Inr [''pagination'', pagination_size_class]
             else Inr [''pagination''])
      else Inr [''pagination''])"

text \<open>Lines 789 to 796: the list of classes after the \<open>justify_content\<close> option.\<close>

definition justify_classes :: "string list \<Rightarrow> string option \<Rightarrow> error + string list" where
  "justify_classes pagination_css_classes justify_content =
     (if truthy justify_content then
        (if or_empty justify_content \<in> set [''start'', ''center'', ''end''] then
           Inr (pagination_css_classes @ [''justify-content-'' @ or_empty justify_content])
         else Inl (ValueError (justify_content_message (or_empty justify_content))))
      else Inr pagination_css_classes)"

section \<open>The pagination context\<close>

record paginator =
  num_pages :: int

record page =
  paginator :: paginator
  number :: int

text \<open>
  The dictionary that \<open>get_pagination_context\<close> returns: the window together with the
  other keys.
\<close>

record pagination_context = window +
  govbrds_pagination_url :: string
  ctx_num_pages :: int
  current_page :: int
  pagination_css_classes :: string
  parameter_name :: string

text \<open>
  \<open>get_pagination_context\<close>, in the order of the source: the check of \<open>pages_to_show\<close>
  (an integer here, so that \<open>int(pages_to_show)\<close> is the identity), the window, the URL,
  the classes, the returned dictionary.  The first exception ends the call.
\<close>

definition get_pagination_context ::
  "lib \<Rightarrow> page \<Rightarrow> int \<Rightarrow> string option \<Rightarrow> string option \<Rightarrow> string option
     \<Rightarrow> string option \<Rightarrow> string \<Rightarrow> error + pagination_context" where
  "get_pagination_context l pg pages_to_show url size_opt justify_content extra param_name =
     (if pages_to_show < 1 then Inl (pages_to_show_error l pages_to_show)
      else
        case compute_window pages_to_show (num_pages (paginator pg)) (number pg) of
          Inl e \<Rightarrow> Inl e
        | Inr w \<Rightarrow>
            (case rebuild_url l url extra of
               Inl e \<Rightarrow> Inl e
             | Inr url' \<Rightarrow>
                 (case size_classes l size_opt of
                    Inl e \<Rightarrow> Inl e
                  | Inr classes0 \<Rightarrow>
                      (case justify_classes classes0 justify_content of
                         Inl e \<Rightarrow> Inl e
                       | Inr classes1 \<Rightarrow>
                           Inr (window.extend w
                                  (pagination_context.fields url'
                                     (num_pages (paginator pg)) (number pg)
                                     (join_space classes1) param_name))))))"

section \<open>A runnable instance of the collaborators\<close>

text \<open>
  Executable models of the library functions as CPython 3.11 and Django have them, used
  to run \<open>get_pagination_context\<close> on concrete inputs.  A Python string is modelled by
  the list of the bytes of its UTF-8 encoding; a surrogate code point, which a Python
  string may hold on its own and UTF-8 does not encode, is given the three bytes that the
  scheme of UTF-8 yields for it (\<open>0xED\<close>, then a byte from \<open>0xA0\<close> to \<open>0xBF\<close>, then a
  continuation byte).
\<close>

text \<open>\<open>s.split(sep)\<close> for a separator of one character.\<close>

fun split_on :: "char \<Rightarrow> string \<Rightarrow> string list" where
  "split_on sep [] = [[]]"
| "split_on sep (x # xs) =
     (if x = sep then [] # split_on sep xs
      else (case split_on sep xs of [] \<Rightarrow> [[x]] | w # ws \<Rightarrow> (x # w) # ws))"

text \<open>\<open>sep.join(xs)\<close>.\<close>

fun join_on :: "string \<Rightarrow> string list \<Rightarrow> string" where
  "join_on sep [] = []"
| "join_on sep [x] = x"
| "join_on sep (x # y # ys) = x @ sep @ join_on sep (y # ys)"

text \<open>
  \<open>s.partition(sep)\<close>: the part before the first separator, and the rest of the string
  from the separator on (empty when there is no separator).
\<close>

definition partition_on :: "char \<Rightarrow> string \<Rightarrow> string \<times> string" where
  "partition_on sep s = (takeWhile (\<lambda>c. c \<noteq> sep) s, dropWhile (\<lambda>c. c \<noteq> sep) s)"

text \<open>\<open>sub in s\<close> for strings.\<close>

fun occurs_in :: "string \<Rightarrow> string \<Rightarrow> bool" where
  "occurs_in sub [] = (sub = [])"
| "occurs_in sub (x # xs) = (take (length sub) (x # xs) = sub \<or> occurs_in sub xs)"

definition hex_digit :: "char \<Rightarrow> nat option" where
  "hex_digit c =
     (let n = (of_char c :: nat) in
      if 48 \<le> n \<and> n \<le> 57 then Some (n - 48)
      else if 65 \<le> n \<and> n \<le> 70 then Some (n - 55)
      else if 97 \<le> n \<and> n \<le> 102 then Some (n - 87)
      else None)"

definition ascii_digit :: "char \<Rightarrow> bool" where
  "ascii_digit c = (let n = (of_char c :: nat) in 48 \<le> n \<and> n \<le> 57)"

definition ascii_alpha :: "char \<Rightarrow> bool" where
  "ascii_alpha c =
     (let n = (of_char c :: nat) in (65 \<le> n \<and> n \<le> 90) \<or> (97 \<le> n \<and> n \<le> 122))"

definition ascii_lower :: "char \<Rightarrow> char" where
  "ascii_lower c =
     (let n = (of_char c :: nat) in if 65 \<le> n \<and> n \<le> 90 then char_of (n + 32) else c)"

subsection \<open>Percent-escapes\<close>

text \<open>
  \<open>urllib.parse.unquote_to_bytes\<close>: every \<open>%\<close> followed by two hexadecimal digits becomes
  the byte they denote; any other \<open>%\<close> stays.
\<close>

fun unquote_to_bytes :: "string \<Rightarrow> string" where
  "unquote_to_bytes (c # a # b # rest) =
     (if c = CHR ''%'' then
        (case hex_digit a of
           None \<Rightarrow> c # unquote_to_bytes (a # b # rest)
         | Some h \<Rightarrow>
             (case hex_digit b of
                None \<Rightarrow> c # unquote_to_bytes (a # b # rest)
              | Some lo \<Rightarrow> char_of (16 * h + lo) # unquote_to_bytes rest))
      else c # unquote_to_bytes (a # b # rest))"
| "unquote_to_bytes cs = cs"

text \<open>The UTF-8 encoding of U+FFFD, the replacement character.\<close>

definition replacement :: string where
  "replacement = [CHR 0xEF, CHR 0xBF, CHR 0xBD]"

definition continuation :: "char \<Rightarrow> bool" where
  "continuation c = (let n = (of_char c :: nat) in 128 \<le> n \<and> n \<le> 191)"

text \<open>
  Whether \<open>c\<close> may follow the lead byte \<open>b\<close> of a sequence of three or four bytes: a
  continuation byte that makes neither an overlong form, nor a surrogate, nor a code point
  above U+10FFFF.
\<close>

definition second_byte :: "char \<Rightarrow> char \<Rightarrow> bool" where
  "second_byte b c =
     (let n = (of_char b :: nat); m = (of_char c :: nat) in
      continuation c
      \<and> (n = 224 \<longrightarrow> 160 \<le> m) \<and> (n = 237 \<longrightarrow> m \<le> 159)
      \<and> (n = 240 \<longrightarrow> 144 \<le> m) \<and> (n = 244 \<longrightarrow> m \<le> 143))"

text \<open>
  \<open>bs.decode('utf-8', 'replace')\<close>, as the bytes of the decoded string: every well-formed
  sequence stays, and every longest ill-formed run that is a prefix of a well-formed
  sequence, or else the single offending byte, becomes one replacement character.
\<close>

fun decode_replace :: "string \<Rightarrow> string" where
  "decode_replace [] = []"
| "decode_replace (b # bs) =
     (let n = (of_char b :: nat) in
      if n < 128 then b # decode_replace bs
      else if n < 194 \<or> 245 \<le> n then replacement @ decode_replace bs
      else if n < 224 then
        (case bs of
           [] \<Rightarrow> replacement
         | c # cs \<Rightarrow>
             if continuation c then b # c # decode_replace cs
             else replacement @ decode_replace (c # cs))
      else if n < 240 then
        (case bs of
           [] \<Rightarrow> replacement
         | c # cs \<Rightarrow>
             if \<not> second_byte b c then replacement @ decode_replace (c # cs)
             else
               (case cs of
                  [] \<Rightarrow> replacement
                | d # ds \<Rightarrow>
                    if continuation d then b # c # d # decode_replace ds
                    else replacement @ decode_replace (d # ds)))
      else
        (case bs of
           [] \<Rightarrow> replacement
         | c # cs \<Rightarrow>
             if \<not> second_byte b c then replacement @ decode_replace (c # cs)
             else
               (case cs of
                  [] \<Rightarrow> replacement
                | d # ds \<Rightarrow>
                    if \<not> continuation d then replacement @ decode_replace (d # ds)
                    else
                      (case ds of
                         [] \<Rightarrow> replacement
                       | e # es \<Rightarrow>
                           if continuation e then b # c # d # e # decode_replace es
                           else replacement @ decode_replace (e # es)))))"

text \<open>
  \<open>urllib.parse.unquote\<close>: the string is cut into its runs of ASCII characters and the
  characters between them.  In every run the percent-escapes become bytes and the bytes
  are decoded as UTF-8 with replacement; the other characters stay.  The first argument
  is the run read so far.
\<close>

fun unquote_runs :: "string \<Rightarrow> string \<Rightarrow> string" where
  "unquote_runs run [] = decode_replace (unquote_to_bytes run)"
| "unquote_runs run (c # cs) =
     (if (of_char c :: nat) < 128 then unquote_runs (run @ [c]) cs
      else decode_replace (unquote_to_bytes run) @ c # unquote_runs [] cs)"

text \<open>\<open>urllib.parse.unquote_plus\<close>: \<open>+\<close> becomes a space, then \<open>unquote\<close>.\<close>

definition unquote_plus :: "string \<Rightarrow> string" where
  "unquote_plus s = unquote_runs [] (map (\<lambda>c. if c = CHR ''+'' then CHR '' '' else c) s)"

definition always_safe :: "char \<Rightarrow> bool" where
  "always_safe c = (ascii_alpha c \<or> ascii_digit c \<or> c \<in> set ''_.-~'')"

definition hex_char :: "nat \<Rightarrow> char" where
  "hex_char n = (if n < 10 then char_of (48 + n) else char_of (55 + n))"

text \<open>
  \<open>urllib.parse.quote_plus\<close>: letters, digits and \<open>_.-~\<close> stay, a space becomes \<open>+\<close>, any
  other byte becomes \<open>%XX\<close> in upper-case hexadecimal.
\<close>

definition quote_plus :: "string \<Rightarrow> string" where
  "quote_plus s =
     concat (map (\<lambda>c.
        if always_safe c then [c]
        else if c = CHR '' '' then ''+''
        else [CHR ''%'', hex_char (of_char c div 16), hex_char (of_char c mod 16)]) s)"

subsection \<open>Query strings\<close>

text \<open>
  \<open>urllib.parse.parse_qsl\<close> with its defaults: fields are separated by \<open>&\<close>; an empty
  field, a field without \<open>=\<close> and a field with an empty value are skipped.
\<close>

definition parse_qsl :: "string \<Rightarrow> (string \<times> string) list" where
  "parse_qsl qs =
     concat (map (\<lambda>name_value.
        (case partition_on CHR ''='' name_value of
           (name, rest) \<Rightarrow>
             (case rest of
                [] \<Rightarrow> []
              | _ # v \<Rightarrow> if v \<noteq> [] then [(unquote_plus name, unquote_plus v)] else [])))
        (split_on CHR ''&'' qs))"

text \<open>
  \<open>urllib.parse.parse_qs\<close>: the values of a repeated name are collected in a list, in
  order, under the position of the name's first occurrence.
\<close>

definition py_parse_qs :: "string \<Rightarrow> query_params" where
  "py_parse_qs qs =
     fold (\<lambda>(name, v) parsed_result.
             (case map_of parsed_result name of
                Some vs \<Rightarrow> AList.update name (vs @ [v]) parsed_result
              | None \<Rightarrow> AList.update name [v] parsed_result))
          (parse_qsl qs) []"

text \<open>The string holds a surrogate code point.\<close>

fun has_surrogate :: "string \<Rightarrow> bool" where
  "has_surrogate (a # b # cs) =
     (((of_char a :: nat) = 237 \<and> 160 \<le> (of_char b :: nat) \<and> (of_char b :: nat) \<le> 191)
      \<or> has_surrogate (b # cs))"
| "has_surrogate cs = False"

text \<open>
  \<open>django.utils.http.urlencode(query, doseq=True)\<close> on a dictionary of lists of strings:
  one \<open>name=value\<close> field for each value, joined by \<open>&\<close>.  Every name and every value
  is encoded in UTF-8 before it is quoted, which raises \<open>UnicodeEncodeError\<close> on a
  surrogate.
\<close>

definition py_urlencode :: "query_params \<Rightarrow> string + string" where
  "py_urlencode params0 =
     (if list_ex (\<lambda>(k, vs). has_surrogate k \<or> list_ex has_surrogate vs) params0
      then Inl ''UnicodeEncodeError''
      else Inr (join_on ''&''
             (concat (map (\<lambda>(k, vs). map (\<lambda>v. quote_plus k @ ''='' @ quote_plus v) vs)
                        params0))))"

subsection \<open>Addresses in brackets\<close>

text \<open>\<open>IPv4Address._parse_octet\<close> succeeds.\<close>

definition octet_ok :: "string \<Rightarrow> bool" where
  "octet_ok s =
     (s \<noteq> [] \<and> list_all ascii_digit s \<and> length s \<le> 3
      \<and> (s = ''0'' \<or> hd s \<noteq> CHR ''0'')
      \<and> fold (\<lambda>c n. 10 * n + (of_char c - 48)) s (0::nat) \<le> 255)"

text \<open>\<open>ipaddress.IPv4Address(s)\<close> succeeds.\<close>

definition ipv4_ok :: "string \<Rightarrow> bool" where
  "ipv4_ok s =
     (s \<noteq> [] \<and> CHR ''/'' \<notin> set s
      \<and> length (split_on CHR ''.'' s) = 4 \<and> list_all octet_ok (split_on CHR ''.'' s))"

text \<open>\<open>IPv6Address._parse_hextet\<close> succeeds.\<close>

definition hextet_ok :: "string \<Rightarrow> bool" where
  "hextet_ok s = (s \<noteq> [] \<and> list_all (\<lambda>c. hex_digit c \<noteq> None) s \<and> length s \<le> 4)"

text \<open>
  \<open>IPv6Address._ip_int_from_string\<close> succeeds.  An IPv4 suffix counts as two hextets.
  One empty part strictly inside marks the skipped run of zeroes; an empty first or last
  part is allowed only next to it.
\<close>

definition ipv6_parts_ok :: "string \<Rightarrow> bool" where
  "ipv6_parts_ok ip_str =
     (let parts0 = split_on CHR '':'' ip_str in
      ip_str \<noteq> [] \<and> 3 \<le> length parts0
      \<and> (CHR ''.'' \<in> set (last parts0) \<longrightarrow> ipv4_ok (last parts0))
      \<and> (let parts = (if CHR ''.'' \<in> set (last parts0)
                        then butlast parts0 @ [''0'', ''0''] else parts0);
               n = length parts;
               inner = filter (\<lambda>i. parts ! i = []) [1..<n - 1]
           in n \<le> 9
              \<and> (case inner of
                    [] \<Rightarrow> n = 8 \<and> list_all hextet_ok parts
                  | [skip_index] \<Rightarrow>
                      (let parts_hi = (if hd parts = [] then skip_index - 1 else skip_index);
                           parts_lo = (if last parts = [] then n - skip_index - 2
                                       else n - skip_index - 1)
                       in (hd parts = [] \<longrightarrow> parts_hi = 0)
                          \<and> (last parts = [] \<longrightarrow> parts_lo = 0)
                          \<and> parts_hi + parts_lo \<le> 7
                          \<and> list_all hextet_ok (take parts_hi parts)
                          \<and> list_all hextet_ok (drop (n - parts_lo) parts))
                  | _ \<Rightarrow> False)))"

text \<open>\<open>ipaddress.IPv6Address(s)\<close> succeeds: an optional scope after \<open>%\<close> is split off.\<close>

definition ipv6_ok :: "string \<Rightarrow> bool" where
  "ipv6_ok s =
     (CHR ''/'' \<notin> set s
      \<and> (case partition_on CHR ''%'' s of
            (addr, rest) \<Rightarrow>
              (rest \<noteq> [] \<longrightarrow> tl rest \<noteq> [] \<and> CHR ''%'' \<notin> set (tl rest))
              \<and> ipv6_parts_ok addr))"

text \<open>
  \<open>_check_bracketed_host\<close> returns: a host that starts with \<open>v\<close> has hexadecimal digits,
  a dot and something after it; any other host is an IPv6 address (\<open>ip_address\<close> accepts
  it, and not as an IPv4 address).
\<close>

definition bracketed_host_ok :: "string \<Rightarrow> bool" where
  "bracketed_host_ok hostname =
     (if take 1 hostname = ''v'' then
        (let digits = takeWhile (\<lambda>c. hex_digit c \<noteq> None) (tl hostname);
             rest = dropWhile (\<lambda>c. hex_digit c \<noteq> None) (tl hostname)
         in digits \<noteq> [] \<and> take 1 rest = ''.'' \<and> tl rest \<noteq> [])
      else \<not> ipv4_ok hostname \<and> ipv6_ok hostname)"

subsection \<open>URLs\<close>

text \<open>
  The characters (of Unicode 14) whose compatibility normal form holds one of \<open>/?#@:\<close>,
  in UTF-8: U+2047, U+2048, U+2049, U+2100, U+2101, U+2105, U+2106, U+2A74, U+FE13, U+FE16,
  U+FE55, U+FE56, U+FE5F, U+FE6B, U+FF03, U+FF0F, U+FF1A, U+FF1F and U+FF20.
\<close>

definition nfkc_delimiters :: "string list" where
  "nfkc_delimiters =
     [[CHR 0xE2, CHR 0x81, CHR 0x87], [CHR 0xE2, CHR 0x81, CHR 0x88],
      [CHR 0xE2, CHR 0x81, CHR 0x89], [CHR 0xE2, CHR 0x84, CHR 0x80],
      [CHR 0xE2, CHR 0x84, CHR 0x81], [CHR 0xE2, CHR 0x84, CHR 0x85],
      [CHR 0xE2, CHR 0x84, CHR 0x86], [CHR 0xE2, CHR 0xA9, CHR 0xB4],
      [CHR 0xEF, CHR 0xB8, CHR 0x93], [CHR 0xEF, CHR 0xB8, CHR 0x96],
      [CHR 0xEF, CHR 0xB9, CHR 0x95], [CHR 0xEF, CHR 0xB9, CHR 0x96],
      [CHR 0xEF, CHR 0xB9, CHR 0x9F], [CHR 0xEF, CHR 0xB9, CHR 0xAB],
      [CHR 0xEF, CHR 0xBC, CHR 0x83], [CHR 0xEF, CHR 0xBC, CHR 0x8F],
      [CHR 0xEF, CHR 0xBC, CHR 0x9A], [CHR 0xEF, CHR 0xBC, CHR 0x9F],
      [CHR 0xEF, CHR 0xBC, CHR 0xA0]]"

text \<open>
  \<open>_checknetloc\<close> returns: the authority holds no character that the normalisation of
  host names would turn into a delimiter.
\<close>

definition netloc_ok :: "string \<Rightarrow> bool" where
  "netloc_ok netloc0 = (\<not> list_ex (\<lambda>d. occurs_in d netloc0) nfkc_delimiters)"

definition scheme_char :: "char \<Rightarrow> bool" where
  "scheme_char c = (ascii_alpha c \<or> ascii_digit c \<or> c \<in> set ''+-.'')"

definition uses_params :: "string list" where
  "uses_params =
     ['''', ''ftp'', ''hdl'', ''prospero'', ''http'', ''imap'', ''https'', ''shttp'',
      ''rtsp'', ''rtsps'', ''rtspu'', ''sip'', ''sips'', ''mms'', ''sftp'', ''tel'']"

definition uses_netloc :: "string list" where
  "uses_netloc =
     ['''', ''ftp'', ''http'', ''gopher'', ''nntp'', ''telnet'', ''imap'', ''wais'',
      ''file'', ''mms'', ''https'', ''shttp'', ''snews'', ''prospero'', ''rtsp'',
      ''rtsps'', ''rtspu'', ''rsync'', ''svn'', ''svn+ssh'', ''sftp'', ''nfs'', ''git'',
      ''git+ssh'', ''ws'', ''wss'']"

text \<open>
  The first steps of \<open>urlsplit\<close>: leading control characters and spaces are stripped, and
  tabs, carriage returns and line feeds are removed everywhere.
\<close>

definition clean_url :: "string \<Rightarrow> string" where
  "clean_url url =
     filter (\<lambda>c. c \<notin> set [CHR 0x09, CHR 0x0D, CHR 0x0A])
       (dropWhile (\<lambda>c. (of_char c :: nat) \<le> 32) url)"

text \<open>
  The scheme of \<open>urlsplit\<close>: the text before the first colon, when it is not empty, starts
  with a letter and consists of scheme characters.
\<close>

definition split_scheme :: "string \<Rightarrow> string \<times> string" where
  "split_scheme url =
     (case partition_on CHR '':'' url of
        (pre, rest) \<Rightarrow>
          if rest \<noteq> [] \<and> pre \<noteq> [] \<and> ascii_alpha (hd pre) \<and> list_all scheme_char pre
          then (map ascii_lower pre, tl rest)
          else ([], url))"

text \<open>
  The authority of \<open>urlsplit\<close>: after a leading \<open>//\<close>, the text up to the first of
  \<open>/\<close>, \<open>?\<close> and \<open>#\<close>.
\<close>

definition split_netloc :: "string \<Rightarrow> string \<times> string" where
  "split_netloc url =
     (if take 2 url = ''//'' then
        (takeWhile (\<lambda>c. c \<notin> set ''/?#'') (drop 2 url),
         dropWhile (\<lambda>c. c \<notin> set ''/?#'') (drop 2 url))
      else ([], url))"

text \<open>
  The checks of \<open>urlsplit\<close> on the authority pass: brackets come in pairs, the host
  between the first \<open>[\<close> and the next \<open>]\<close> is an address, and \<open>_checknetloc\<close> returns.
\<close>

definition authority_ok :: "string \<Rightarrow> bool" where
  "authority_ok netloc0 =
     ((CHR ''['' \<in> set netloc0) = (CHR '']'' \<in> set netloc0)
      \<and> (CHR ''['' \<in> set netloc0 \<longrightarrow>
            bracketed_host_ok
              (takeWhile (\<lambda>c. c \<noteq> CHR '']'')
                 (tl (dropWhile (\<lambda>c. c \<noteq> CHR ''['') netloc0))))
      \<and> netloc_ok netloc0)"

text \<open>
  \<open>_splitparams\<close>: the parameters start at the first semicolon of the last path segment.
\<close>

definition split_params :: "string \<Rightarrow> string \<times> string" where
  "split_params url =
     (let segment = rev (takeWhile (\<lambda>c. c \<noteq> CHR ''/'') (rev url));
          before = take (length url - length segment) url
      in case partition_on CHR '';'' segment of
           (pre, rest) \<Rightarrow> if rest = [] then (url, []) else (before @ pre, tl rest))"

text \<open>
  \<open>urllib.parse.urlparse\<close>.  Every exception it raises on a string is a \<open>ValueError\<close>,
  from one of the checks of the authority.
\<close>

definition py_urlparse :: "string \<Rightarrow> string + parse_result" where
  "py_urlparse url0 =
     (case split_scheme (clean_url url0) of
        (scheme0, url1) \<Rightarrow>
          (case split_netloc url1 of
             (netloc0, url2) \<Rightarrow>
               if \<not> authority_ok netloc0 then Inl ''ValueError''
               else
                 (case partition_on CHR ''#'' url2 of
                    (url3, frag) \<Rightarrow>
                      (case partition_on CHR ''?'' url3 of
                         (url4, qry) \<Rightarrow>
                           (case (if scheme0 \<in> set uses_params \<and> CHR '';'' \<in> set url4
                                  then split_params url4 else (url4, [])) of
                              (url5, params0) \<Rightarrow>
                                Inr \<lparr>scheme = scheme0, netloc = netloc0, path = url5,
                                     params = params0, query = tl qry,
                                     fragment = tl frag\<rparr>)))))"

text \<open>\<open>urllib.parse.urlunparse\<close>.\<close>

definition py_urlunparse :: "parse_result \<Rightarrow> string" where
  "py_urlunparse parts =
     (let url0 = (if params parts \<noteq> [] then path parts @ '';'' @ params parts
                  else path parts);
          url1 = (if netloc parts \<noteq> []
                     \<or> (scheme parts \<noteq> [] \<and> scheme parts \<in> set uses_netloc)
                     \<or> take 2 url0 = ''//''
                  then ''//'' @ netloc parts
                         @ (if url0 \<noteq> [] \<and> take 1 url0 \<noteq> ''/'' then ''/'' @ url0 else url0)
                  else url0);
          url2 = (if scheme parts \<noteq> [] then scheme parts @ '':'' @ url1 else url1);
          url3 = (if query parts \<noteq> [] then url2 @ ''?'' @ query parts else url2)
      in if fragment parts \<noteq> [] then url3 @ ''#'' @ fragment parts else url3)"

text \<open>
  The module neither defines nor imports \<open>get_size_class\<close>: looking the name up raises
  \<open>NameError\<close>.
\<close>

definition unbound_get_size_class :: "string \<Rightarrow> string \<Rightarrow> string \<Rightarrow> string + string" where
  "unbound_get_size_class size_arg prefix skip = Inl ''NameError''"

text \<open>
  The instance: the library functions above, and the limit of 4300 digits that CPython
  sets by default on the conversion of an integer to a string.
\<close>

definition py_lib :: lib where
  "py_lib =
     \<lparr>urlparse = py_urlparse, parse_qs = py_parse_qs, urlencode = py_urlencode,
      urlunparse = py_urlunparse, get_size_class = unbound_get_size_class,
      int_max_str_digits = 4300\<rparr>"

section \<open>Settings and renderers\<close>

text \<open>The Python values that occur in the settings tables.\<close>

datatype pyval =
    PNone
  | PBool bool
  | PStr string
  | PDict "(string \<times> pyval) list"

text \<open>\<open>GOVBRDS_DEFAULTS\<close> of \<open>core.py\<close>.\<close>

definition GOVBRDS_DEFAULTS :: "(string \<times> pyval) list" where
  "GOVBRDS_DEFAULTS =
     [(''css_url'', PDict [(''url'', PStr ''govbrds3/css/style.min.css'')]),
      (''javascript_url'', PDict [(''url'', PStr ''govbrds3/js/script.js'')]),
      (''theme_url'', PNone),
      (''color_mode'', PNone),
      (''javascript_in_head'', PBool False),
      (''wrapper_class'', PStr ''mb-3''),
      (''inline_wrapper_class'', PStr ''''),
      (''horizontal_label_class'', PStr ''col-sm-2''),
      (''horizontal_field_class'', PStr ''col-sm-10''),
      (''horizontal_field_offset_class'', PStr ''offset-sm-2''),
      (''set_placeholder'', PBool True),
      (''checkbox_layout'', PNone),
      (''checkbox_style'', PNone),
      (''required_css_class'', PStr ''''),
      (''error_css_class'', PStr ''''),
      (''success_css_class'', PStr ''''),
      (''server_side_validation'', PBool True),
      (''formset_renderers'',
         PDict [(''default'', PStr ''django_govbrds.renderers.FormsetRenderer'')]),
      (''form_renderers'',
         PDict [(''default'', PStr ''django_govbrds.renderers.FormRenderer'')]),
      (''field_renderers'',
         PDict [(''default'', PStr ''django_govbrds.renderers.FieldRenderer'')])]"

text \<open>
  \<open>get_govbrds_setting\<close>.  The first argument is the attribute \<open>GOVBRDS\<close> of the Django
  settings, \<open>None\<close> when the settings have no such attribute (\<open>getattr\<close> then yields the
  empty dictionary).  \<open>dict.get\<close> looks at the presence of the key only.
\<close>

definition get_govbrds_setting ::
  "(string \<rightharpoonup> pyval) option \<Rightarrow> string \<Rightarrow> pyval \<Rightarrow> pyval" where
  "get_govbrds_setting settings_GOVBRDS name default_value =
     (let govbrds_settings = (case settings_GOVBRDS of None \<Rightarrow> Map.empty | Some d \<Rightarrow> d) in
      case govbrds_settings name of
        Some v \<Rightarrow> v
      | None \<Rightarrow> (case map_of GOVBRDS_DEFAULTS name of Some v \<Rightarrow> v | None \<Rightarrow> default_value))"

text \<open>
  Lines 66 and 67 of \<open>get_renderer\<close>: the entry that is selected.  \<open>renderers["default"]\<close>
  is evaluated before \<open>renderers.get\<close> is called, so a map without that key raises
  \<open>KeyError\<close>.  The keys of the map are strings; a layout that is \<open>None\<close> or a Boolean
  is found under no key, and a dictionary cannot be hashed.
\<close>

definition renderer_path :: "(string \<rightharpoonup> pyval) \<Rightarrow> (string \<rightharpoonup> pyval) \<Rightarrow> error + pyval" where
  "renderer_path renderers kwargs =
     (let layout = (case kwargs ''layout'' of None \<Rightarrow> PStr [] | Some v \<Rightarrow> v) in
      case renderers ''default'' of
        None \<Rightarrow> Inl (KeyError ''default'')
      | Some dflt \<Rightarrow>
          (case layout of
             PStr s \<Rightarrow> Inr (case renderers s of Some p \<Rightarrow> p | None \<Rightarrow> dflt)
           | PDict d \<Rightarrow> Inl TypeError
           | _ \<Rightarrow> Inr dflt))"

text \<open>\<open>path.rsplit(".", 1)\<close> unpacked into two names: \<open>None\<close> when the path has no dot.\<close>

definition rsplit_dot :: "string \<Rightarrow> (string \<times> string) option" where
  "rsplit_dot p =
     (if CHR ''.'' \<in> set p then
        (let cls = rev (takeWhile (\<lambda>c. c \<noteq> CHR ''.'') (rev p)) in
         Some (take (length p - length cls - 1) p, cls))
      else None)"

text \<open>
  Lines 68 and 69 of \<open>get_renderer\<close>: the selected entry is split at its last dot and the
  class is looked up in the imported module.  The import is a parameter; \<open>Inl\<close> carries
  the text of the exception it raises.
\<close>

definition load_renderer :: "(string \<Rightarrow> string \<Rightarrow> string + 'r) \<Rightarrow> pyval \<Rightarrow> error + 'r" where
  "load_renderer import_attr entry =
     (case entry of
        PStr p \<Rightarrow>
          (case rsplit_dot p of
             None \<Rightarrow> Inl (ValueError ''not enough values to unpack (expected 2, got 1)'')
           | Some (mod_name, cls) \<Rightarrow>
               (case import_attr mod_name cls of
                  Inl e \<Rightarrow> Inl (Propagated e)
                | Inr r \<Rightarrow> Inr r))
      | _ \<Rightarrow> Inl AttributeError)"

definition get_renderer ::
  "(string \<Rightarrow> string \<Rightarrow> string + 'r) \<Rightarrow> (string \<rightharpoonup> pyval) \<Rightarrow> (string \<rightharpoonup> pyval) \<Rightarrow> error + 'r" where
  "get_renderer import_attr renderers kwargs =
     (case renderer_path renderers kwargs of
        Inl e \<Rightarrow> Inl e
      | Inr entry \<Rightarrow> load_renderer import_attr entry)"

text \<open>
  The three callers read the map from the settings (with the default \<open>None\<close> of
  \<open>get_govbrds_setting\<close>); a setting that is not a dictionary has no \<open>get\<close>.
\<close>

definition get_formset_renderer ::
  "(string \<rightharpoonup> pyval) option \<Rightarrow> (string \<Rightarrow> string \<Rightarrow> string + 'r) \<Rightarrow> (string \<rightharpoonup> pyval)
     \<Rightarrow> error + 'r" where
  "get_formset_renderer settings_GOVBRDS import_attr kwargs =
     (case get_govbrds_setting settings_GOVBRDS ''formset_renderers'' PNone of
        PDict renderers \<Rightarrow> get_renderer import_attr (map_of renderers) kwargs
      | _ \<Rightarrow> Inl AttributeError)"

definition get_form_renderer ::
  "(string \<rightharpoonup> pyval) option \<Rightarrow> (string \<Rightarrow> string \<Rightarrow> string + 'r) \<Rightarrow> (string \<rightharpoonup> pyval)
     \<Rightarrow> error + 'r" where
  "get_form_renderer settings_GOVBRDS import_attr kwargs =
     (case get_govbrds_setting settings_GOVBRDS ''form_renderers'' PNone of
        PDict renderers \<Rightarrow> get_renderer import_attr (map_of renderers) kwargs
      | _ \<Rightarrow> Inl AttributeError)"

definition get_field_renderer ::
  "(string \<rightharpoonup> pyval) option \<Rightarrow> (string \<Rightarrow> string \<Rightarrow> string + 'r) \<Rightarrow> (string \<rightharpoonup> pyval)
     \<Rightarrow> error + 'r" where
  "get_field_renderer settings_GOVBRDS import_attr kwargs =
     (case get_govbrds_setting settings_GOVBRDS ''field_renderers'' PNone of
        PDict renderers \<Rightarrow> get_renderer import_attr (map_of renderers) kwargs
      | _ \<Rightarrow> Inl AttributeError)"

section \<open>Halving through a double\<close>

lemma bit_length_le: "n < 2 ^ k \<Longrightarrow> bit_length n \<le> k"
proof (induction k arbitrary: n)
  case 0
  then show ?case by (simp add: bit_length.simps)
next
  case (Suc k)
  show ?case
  proof (cases "n \<le> 0")
    case True
    then show ?thesis by (simp add: bit_length.simps)
  next
    case False
    from Suc.prems have "n div 2 < 2 ^ k" by simp
    then have "bit_length (n div 2) \<le> k" by (rule Suc.IH)
    with False show ?thesis by (subst bit_length.simps) simp
  qed
qed

lemma round_to_double_small: "n < 2 ^ 53 \<Longrightarrow> round_to_double n = n"
  using bit_length_le [of n 53] by (simp add: round_to_double_def)

lemma round_to_double_nonneg: "0 \<le> n \<Longrightarrow> 0 \<le> round_to_double n"
  by (auto simp: round_to_double_def Let_def pos_imp_zdiv_nonneg_iff)

lemma floor_truediv_2_small:
  assumes "0 \<le> x" "x < 2 ^ 53"
  shows "floor_truediv_2 x = Inr (x div 2)"
proof -
  have "(2::int) ^ 53 \<le> 2 ^ 1025" by (rule power_increasing) simp_all
  with assms have nb: "\<not> 2 ^ 1025 \<le> x" by linarith
  have s: "sgn x * x = x" using assms(1) by (cases "x = 0") simp_all
  have a: "\<bar>x\<bar> = x" using assms(1) by simp
  have r: "round_to_double x = x" using assms(2) by (rule round_to_double_small)
  show ?thesis unfolding floor_truediv_2_def Let_def a r s using nb by simp
qed

lemma floor_truediv_2_nonneg:
  assumes "0 \<le> x" "floor_truediv_2 x = Inr d"
  shows "0 \<le> d"
proof -
  have "0 \<le> round_to_double \<bar>x\<bar>" by (rule round_to_double_nonneg) simp
  moreover have "sgn x = 0 \<or> sgn x = 1" using assms(1) by (cases "x = 0") simp_all
  ultimately have "0 \<le> (sgn x * round_to_double \<bar>x\<bar>) div 2"
    by (auto simp: pos_imp_zdiv_nonneg_iff)
  with assms(2) show ?thesis
    by (auto simp: floor_truediv_2_def Let_def split: if_splits)
qed

lemma floor_truediv_2_error:
  assumes "floor_truediv_2 x = Inl e"
  shows "e = OverflowError \<and> 2 ^ 53 \<le> \<bar>x\<bar>"
proof -
  have e: "e = OverflowError" and big: "2 ^ 1025 \<le> round_to_double \<bar>x\<bar>"
    using assms by (auto simp: floor_truediv_2_def Let_def split: if_splits)
  have "(2::int) ^ 53 \<le> 2 ^ 1025" by (rule power_increasing) simp_all
  have "2 ^ 53 \<le> \<bar>x\<bar>"
  proof (rule ccontr)
    assume "\<not> 2 ^ 53 \<le> \<bar>x\<bar>"
    then have "\<bar>x\<bar> < 2 ^ 53" by simp
    then have "round_to_double \<bar>x\<bar> = \<bar>x\<bar>" by (rule round_to_double_small)
    with big \<open>\<bar>x\<bar> < 2 ^ 53\<close> \<open>(2::int) ^ 53 \<le> 2 ^ 1025\<close> show False by linarith
  qed
  with e show ?thesis by simp
qed

lemma compute_window_eq_spec:
  assumes "1 \<le> w" "w < 2 ^ 53"
  shows "compute_window w n c = Inr (computeWindow_spec w n c)"
proof -
  have d: "floor_truediv_2 w = Inr (w div 2)"
    using assms by (simp add: floor_truediv_2_small)
  define f0 where "f0 = max 1 (c - w div 2)"
  define b0 where "b0 = (if 1 < f0 then Some (max 1 (f0 - w div 2)) else None)"
  define l1 where "l1 = (if b0 = None then f0 + w - 1 + 1 else f0 + w - 1)"
  define l2 where "l2 = (if n < l1 then n else l1)"
  have l2_min: "min l1 n = l2" by (simp add: l2_def min_def)
  have code: "compute_window w n c =
      (if l2 < n then
         Inr \<lparr>first_page = f0, last_page = l2, pages_shown = [f0..l2], pages_back = b0,
              pages_forward = Some (min (l2 + w div 2) n)\<rparr>
       else
         Inr \<lparr>first_page = (if 1 < f0 then f0 - 1 else f0), last_page = l2,
              pages_shown = [(if 1 < f0 then f0 - 1 else f0)..l2],
              pages_back = (case b0 of Some b \<Rightarrow> if 1 < b then Some (b - 1) else None
                            | None \<Rightarrow> None),
              pages_forward = None\<rparr>)"
    unfolding compute_window_def d sum.case Let_def f0_def b0_def l1_def l2_def ..
  have spec: "computeWindow_spec w n c =
      \<lparr>first_page = (if l2 < n then f0 else if 1 < f0 then f0 - 1 else f0), last_page = l2,
       pages_shown = [(if l2 < n then f0 else if 1 < f0 then f0 - 1 else f0)..l2],
       pages_back = (if l2 < n then b0
                     else (case b0 of Some b \<Rightarrow> if 1 < b then Some (b - 1) else None
                           | None \<Rightarrow> None)),
       pages_forward = (if l2 < n then Some (min (l2 + w div 2) n) else None)\<rparr>"
    unfolding computeWindow_spec_def Let_def l2_min [symmetric] f0_def b0_def l1_def ..
  show ?thesis unfolding code spec by simp
qed


lemma compute_window_unfold:
  assumes "floor_truediv_2 w = Inr d"
    and "f0 = max 1 (c - d)"
    and "b0 = (if 1 < f0 then Some (max 1 (f0 - d)) else None)"
    and "l1 = (if b0 = None then f0 + w - 1 + 1 else f0 + w - 1)"
    and "l2 = (if n < l1 then n else l1)"
  shows "compute_window w n c =
      (if l2 < n then
         Inr \<lparr>first_page = f0, last_page = l2, pages_shown = [f0..l2], pages_back = b0,
              pages_forward = Some (min (l2 + d) n)\<rparr>
       else
         Inr \<lparr>first_page = (if 1 < f0 then f0 - 1 else f0), last_page = l2,
              pages_shown = [(if 1 < f0 then f0 - 1 else f0)..l2],
              pages_back = (case b0 of Some b \<Rightarrow> if 1 < b then Some (b - 1) else None
                            | None \<Rightarrow> None),
              pages_forward = None\<rparr>)"
  unfolding compute_window_def assms sum.case Let_def ..

section \<open>Properties of the window\<close>

lemma compute_window_Inr:
  assumes "floor_truediv_2 w = Inr d"
  shows "\<exists>win. compute_window w n c = Inr win"
proof -
  define f0 where "f0 = max 1 (c - d)"
  define b0 where "b0 = (if 1 < f0 then Some (max 1 (f0 - d)) else None)"
  define l1 where "l1 = (if b0 = None then f0 + w - 1 + 1 else f0 + w - 1)"
  define l2 where "l2 = (if n < l1 then n else l1)"
  note u = compute_window_unfold [OF assms f0_def b0_def l1_def l2_def]
  show ?thesis by (cases "l2 < n") (simp_all only: u if_True if_False, blast+)
qed

lemma compute_window_error:
  assumes "compute_window w n c = Inl e"
  shows "e = OverflowError \<and> 2 ^ 53 \<le> \<bar>w\<bar>"
proof (cases "floor_truediv_2 w")
  case (Inl e')
  with assms have "e' = e" by (simp add: compute_window_def)
  with Inl have "floor_truediv_2 w = Inl e" by simp
  then show ?thesis by (rule floor_truediv_2_error)
next
  case (Inr d)
  then have "\<exists>win. compute_window w n c = Inr win" by (rule compute_window_Inr)
  with assms show ?thesis by simp
qed

lemma pages_shown_range:
  assumes "compute_window w n c = Inr win"
  shows "pages_shown win = [first_page win..last_page win]"
proof (cases "floor_truediv_2 w")
  case (Inl e)
  with assms show ?thesis by (simp add: compute_window_def)
next
  case (Inr d)
  define f0 where "f0 = max 1 (c - d)"
  define b0 where "b0 = (if 1 < f0 then Some (max 1 (f0 - d)) else None)"
  define l1 where "l1 = (if b0 = None then f0 + w - 1 + 1 else f0 + w - 1)"
  define l2 where "l2 = (if n < l1 then n else l1)"
  note u = compute_window_unfold [OF Inr f0_def b0_def l1_def l2_def]
  show ?thesis
  proof (cases "l2 < n")
    case True
    with assms show ?thesis unfolding u by auto
  next
    case False
    with assms show ?thesis unfolding u by auto
  qed
qed

lemma length_upto_int: "int (length [i..j]) = (if i \<le> j then j - i + 1 else 0)"
  by simp

lemma window_length:
  assumes "1 \<le> w" "compute_window w n c = Inr win"
  shows "int (length (pages_shown win)) \<le> w + 1"
proof (cases "floor_truediv_2 w")
  case (Inl e)
  with assms show ?thesis by (simp add: compute_window_def)
next
  case (Inr d)
  define f0 where "f0 = max 1 (c - d)"
  define b0 where "b0 = (if 1 < f0 then Some (max 1 (f0 - d)) else None)"
  define l1 where "l1 = (if b0 = None then f0 + w - 1 + 1 else f0 + w - 1)"
  define l2 where "l2 = (if n < l1 then n else l1)"
  note u = compute_window_unfold [OF Inr f0_def b0_def l1_def l2_def]
  have l2: "l2 \<le> l1" by (simp add: l2_def)
  have l1: "l1 \<le> f0 + w" by (simp add: l1_def)
  have l1': "1 < f0 \<Longrightarrow> l1 = f0 + w - 1" by (simp add: l1_def b0_def)
  show ?thesis
  proof (cases "l2 < n")
    case True
    with assms(2) have "pages_shown win = [f0..l2]" unfolding u by auto
    with l1 l2 assms(1) show ?thesis by simp
  next
    case False
    with assms(2) have "pages_shown win = [(if 1 < f0 then f0 - 1 else f0)..l2]"
      unfolding u by auto
    with l1 l1' l2 assms(1) show ?thesis by (cases "1 < f0") simp_all
  qed
qed

lemma window_targets:
  assumes "1 \<le> w" "compute_window w n c = Inr win"
  shows "(\<forall>b. pages_back win = Some b \<longrightarrow> 1 \<le> b \<and> b \<le> first_page win)
       \<and> (\<forall>f. pages_forward win = Some f \<longrightarrow> last_page win \<le> f \<and> f \<le> n)"
proof (cases "floor_truediv_2 w")
  case (Inl e)
  with assms show ?thesis by (simp add: compute_window_def)
next
  case (Inr d)
  from assms(1) Inr have d: "0 \<le> d" by (intro floor_truediv_2_nonneg [of w d]) simp_all
  define f0 where "f0 = max 1 (c - d)"
  define b0 where "b0 = (if 1 < f0 then Some (max 1 (f0 - d)) else None)"
  define l1 where "l1 = (if b0 = None then f0 + w - 1 + 1 else f0 + w - 1)"
  define l2 where "l2 = (if n < l1 then n else l1)"
  note u = compute_window_unfold [OF Inr f0_def b0_def l1_def l2_def]
  have b0: "b0 = Some b \<Longrightarrow> 1 \<le> b \<and> b \<le> f0" for b
    using d by (auto simp: b0_def split: if_splits)
  show ?thesis
  proof (cases "l2 < n")
    case True
    with assms(2) have win: "win = \<lparr>first_page = f0, last_page = l2, pages_shown = [f0..l2],
        pages_back = b0, pages_forward = Some (min (l2 + d) n)\<rparr>" unfolding u by auto
    show ?thesis unfolding win using b0 d True by auto
  next
    case False
    with assms(2) have win: "win = \<lparr>first_page = (if 1 < f0 then f0 - 1 else f0), last_page = l2,
              pages_shown = [(if 1 < f0 then f0 - 1 else f0)..l2],
              pages_back = (case b0 of Some b \<Rightarrow> if 1 < b then Some (b - 1) else None
                            | None \<Rightarrow> None),
              pages_forward = None\<rparr>" unfolding u by auto
    show ?thesis unfolding win using b0 by (cases b0) (auto split: if_splits)
  qed
qed

lemma window_bounds:
  assumes "1 \<le> w" "w < 2 ^ 53" "0 < n" "1 \<le> c" "c \<le> n"
  shows "\<exists>win. compute_window w n c = Inr win
           \<and> 1 \<le> first_page win \<and> first_page win \<le> c \<and> c \<le> last_page win
           \<and> last_page win \<le> n \<and> pages_shown win = [first_page win..last_page win]"
proof -
  define d where "d = w div 2"
  have Inr: "floor_truediv_2 w = Inr d"
    using assms by (simp add: floor_truediv_2_small d_def)
  have d: "0 \<le> d" "d \<le> w - 1" using assms(1) by (simp_all add: d_def)
  define f0 where "f0 = max 1 (c - d)"
  define b0 where "b0 = (if 1 < f0 then Some (max 1 (f0 - d)) else None)"
  define l1 where "l1 = (if b0 = None then f0 + w - 1 + 1 else f0 + w - 1)"
  define l2 where "l2 = (if n < l1 then n else l1)"
  note u = compute_window_unfold [OF Inr f0_def b0_def l1_def l2_def]
  have f0: "1 \<le> f0" "f0 \<le> c" "c - d \<le> f0" using assms(4) d by (simp_all add: f0_def)
  have "c \<le> l1" using f0 d by (simp add: l1_def)
  then have l2: "c \<le> l2" "l2 \<le> n" using assms(5) by (simp_all add: l2_def)
  show ?thesis unfolding u using f0 l2 by auto
qed

lemma window_empty:
  assumes "1 \<le> w" "floor_truediv_2 w = Inr d"
  shows "compute_window w 0 1 = Inr \<lparr>first_page = 1, last_page = 0, pages_shown = [],
           pages_back = None, pages_forward = None\<rparr>"
proof -
  from assms have d: "0 \<le> d" by (intro floor_truediv_2_nonneg [of w d]) simp_all
  define f0 where "f0 = max 1 (1 - d)"
  define b0 where "b0 = (if 1 < f0 then Some (max 1 (f0 - d)) else None)"
  define l1 where "l1 = (if b0 = None then f0 + w - 1 + 1 else f0 + w - 1)"
  define l2 where "l2 = (if 0 < l1 then 0 else l1)"
  note u = compute_window_unfold [OF assms(2) f0_def b0_def l1_def l2_def]
  have f0: "f0 = 1" using d by (simp add: f0_def)
  have b0: "b0 = None" by (simp add: b0_def f0)
  have l1: "l1 = 1 + w" by (simp add: l1_def b0 f0)
  have l2: "l2 = 0" using assms(1) by (simp add: l2_def l1)
  show ?thesis unfolding u f0 b0 l2 by simp
qed

lemma window_example:
  "compute_window 11 100 50 =
     Inr \<lparr>first_page = 45, last_page = 55,
          pages_shown = [45, 46, 47, 48, 49, 50, 51, 52, 53, 54, 55],
          pages_back = Some 40, pages_forward = Some 60\<rparr>"
  by code_simp

text \<open>
  Two values of the halving that differ from the mathematical floor of the half: a tie
  that the double rounds to the even neighbour, and a quotient too large for a double.
\<close>

lemma halving_rounds: "floor_truediv_2 9007199254740995 = Inr 4503599627370498"
  by code_simp

lemma halving_overflows: "floor_truediv_2 (2 ^ 1025) = Inl OverflowError"
  by code_simp

text \<open>
  Where the double rounds the half, the window moves: with \<open>2 ^ 54\<close> pages, current page
  \<open>2 ^ 53\<close> and the window size \<open>2 ^ 53 + 3\<close> the source starts the window one page
  before the reference algorithm.
\<close>

lemma shifted_first_page: "max 1 (2 ^ 53 - 4503599627370498) = (4503599627370494::int)"
  by simp

lemma shifted_last_page:
  fixes f0 :: int
  assumes "f0 = 4503599627370494"
    and "b0 = (if 1 < f0 then Some (max 1 (f0 - 4503599627370498)) else None)"
    and "l1 = (if b0 = None then f0 + 9007199254740995 - 1 + 1
                         else f0 + 9007199254740995 - 1)"
    and "l2 = (if 2 ^ 54 < l1 then 2 ^ 54 else l1)"
  shows "l2 < 2 ^ 54"
proof -
  have b0: "b0 \<noteq> None" by (simp add: assms(1,2))
  have l1: "l1 = 13510798882111488" using b0 by (simp add: assms(1,3))
  show ?thesis by (simp add: assms(4) l1)
qed

lemma reference_first_page: "first_page (computeWindow_spec 9007199254740995 (2 ^ 54) (2 ^ 53)) = 4503599627370495"
  by (simp only: computeWindow_spec_def Let_def window.simps) simp

lemma halving_shifts_window:
  "(\<exists>win. compute_window 9007199254740995 (2 ^ 54) (2 ^ 53) = Inr win
          \<and> first_page win = 4503599627370494)
   \<and> first_page (computeWindow_spec 9007199254740995 (2 ^ 54) (2 ^ 53)) = 4503599627370495"
proof -
  define f0 :: int where "f0 = max 1 (2 ^ 53 - 4503599627370498)"
  define b0 where "b0 = (if 1 < f0 then Some (max 1 (f0 - 4503599627370498)) else None)"
  define l1 where "l1 = (if b0 = None then f0 + 9007199254740995 - 1 + 1
                         else f0 + 9007199254740995 - 1)"
  define l2 :: int where "l2 = (if 2 ^ 54 < l1 then 2 ^ 54 else l1)"
  note u = compute_window_unfold [OF halving_rounds f0_def b0_def l1_def l2_def]
  have f0: "f0 = 4503599627370494" unfolding f0_def by (rule shifted_first_page)
  have l2: "l2 < 2 ^ 54" by (rule shifted_last_page [OF f0 b0_def l1_def l2_def])
  have w: "compute_window 9007199254740995 (2 ^ 54) (2 ^ 53) =
      Inr \<lparr>first_page = f0, last_page = l2, pages_shown = [f0..l2], pages_back = b0,
           pages_forward = Some (min (l2 + 4503599627370498) (2 ^ 54))\<rparr>"
    unfolding u using l2 by (rule if_P)
  have "first_page \<lparr>first_page = f0, last_page = l2, pages_shown = [f0..l2], pages_back = b0,
           pages_forward = Some (min (l2 + 4503599627370498) (2 ^ 54))\<rparr> = 4503599627370494"
    unfolding window.simps by (rule f0)
  with w have "\<exists>win. compute_window 9007199254740995 (2 ^ 54) (2 ^ 53) = Inr win
          \<and> first_page win = 4503599627370494"
    by (intro exI conjI)
  with reference_first_page show ?thesis by (intro conjI)
qed

section \<open>The claims about the window\<close>

text \<open>
  C1.  The claim: for every \<open>windowSize \<ge> 1\<close>, \<open>totalPages \<ge> 0\<close> and
  \<open>1 \<le> currentPage \<le> max(totalPages, 1)\<close> the window computation yields the first and
  last page, the two jump targets and the pages shown of the reference algorithm, whose
  \<open>delta\<close> is the floor of half the window size.  The source halves through a double.
  Below \<open>2 ^ 53\<close> the two agree (\<open>compute_window_eq_spec\<close>, with \<open>window_example\<close> for
  100 pages, page 50, window 11).  At the window size \<open>2 ^ 1025\<close>, with no pages and
  current page 1, the reference algorithm yields the empty window, and the source raises
  \<open>OverflowError\<close>.
\<close>

theorem window_overflows_where_reference_returns:
  "compute_window (2 ^ 1025) 0 1 = Inl OverflowError
   \<and> computeWindow_spec (2 ^ 1025) 0 1 =
       \<lparr>first_page = 1, last_page = 0, pages_shown = [], pages_back = None,
        pages_forward = None\<rparr>"
  by code_simp

text \<open>
  C2.  The claim: for every \<open>totalPages > 0\<close>, \<open>windowSize \<ge> 1\<close> and
  \<open>1 \<le> currentPage \<le> totalPages\<close> the computation returns a first and a last page with
  \<open>1 \<le> firstPage \<le> currentPage \<le> lastPage \<le> totalPages\<close>, and the pages shown are the
  range between them.  This holds for every window size below \<open>2 ^ 53\<close>
  (\<open>window_bounds\<close>).  With five pages, current page 1 and the window size \<open>2 ^ 1025\<close>
  nothing is returned: the halving raises \<open>OverflowError\<close>.
\<close>

theorem window_bounds_fail_on_overflow:
  "compute_window (2 ^ 1025) 5 1 = Inl OverflowError"
  by (simp only: compute_window_def halving_overflows sum.case)

text \<open>
  C3.  The claim: with no pages, current page 1 and any \<open>windowSize \<ge> 1\<close> the computation
  returns normally, with no pages shown and both jump targets absent.  This holds whenever
  the halving returns (\<open>window_empty\<close>), so for every window size below \<open>2 ^ 53\<close>.  At
  the window size \<open>2 ^ 1025\<close> the call of \<open>get_pagination_context\<close> ends with
  \<open>OverflowError\<close>, whatever the other arguments are.
\<close>

theorem empty_result_set_overflow:
  "get_pagination_context l \<lparr>paginator = \<lparr>num_pages = 0\<rparr>, number = 1\<rparr> (2 ^ 1025)
     url size_opt justify_content extra param_name = Inl OverflowError"
proof -
  have "compute_window (2 ^ 1025) 0 1 = Inl OverflowError"
    by (simp only: compute_window_def halving_overflows sum.case)
  then show ?thesis by (simp add: get_pagination_context_def)
qed

text \<open>
  C9.  For every \<open>windowSize \<ge> 1\<close>, \<open>totalPages \<ge> 0\<close> and
  \<open>1 \<le> currentPage \<le> max(totalPages, 1)\<close>, the pages shown that the window computation
  returns are at most \<open>windowSize + 1\<close>, and they are the whole range from the first to
  the last page, never shortened.  The computation returns unless the halving overflows,
  which needs a window size of at least \<open>2 ^ 53\<close>.
\<close>

theorem pages_shown_length_le_window_plus_one:
  assumes "1 \<le> pages_to_show" "0 \<le> n_pages" "1 \<le> current" "current \<le> max n_pages 1"
  shows "case compute_window pages_to_show n_pages current of
           Inr win \<Rightarrow> int (length (pages_shown win)) \<le> pages_to_show + 1
                      \<and> pages_shown win = [first_page win..last_page win]
         | Inl e \<Rightarrow> e = OverflowError \<and> 2 ^ 53 \<le> pages_to_show"
proof (cases "compute_window pages_to_show n_pages current")
  case (Inl e)
  then have "e = OverflowError \<and> 2 ^ 53 \<le> \<bar>pages_to_show\<bar>" by (rule compute_window_error)
  with assms(1) Inl show ?thesis by simp
next
  case (Inr win)
  from window_length [OF assms(1) Inr] pages_shown_range [OF Inr] Inr
  show ?thesis by (simp only: sum.case simp_thms)
qed

theorem pages_shown_length_le_window_plus_one_witness:
  "(1::int) \<le> 11 \<and> (0::int) \<le> 100 \<and> (1::int) \<le> 50 \<and> (50::int) \<le> max 100 1
   \<and> (case compute_window 11 100 50 of
         Inr win \<Rightarrow> int (length (pages_shown win)) \<le> 11 + 1
                    \<and> pages_shown win = [first_page win..last_page win]
       | Inl e \<Rightarrow> e = OverflowError \<and> 2 ^ 53 \<le> (11::int))"
  using pages_shown_length_le_window_plus_one [of 11 100 50] by simp

text \<open>
  C10.  For every \<open>totalPages \<ge> 1\<close>, \<open>windowSize \<ge> 1\<close> and
  \<open>1 \<le> currentPage \<le> totalPages\<close>: a jump-back target that the window computation
  returns lies between 1 and the first page, and a jump-forward target lies between the
  last page and \<open>totalPages\<close>.  The computation returns unless the halving overflows.
\<close>

theorem jump_targets_in_range:
  assumes "1 \<le> n_pages" "1 \<le> pages_to_show" "1 \<le> current" "current \<le> n_pages"
  shows "case compute_window pages_to_show n_pages current of
           Inr win \<Rightarrow>
             (\<forall>b. pages_back win = Some b \<longrightarrow> 1 \<le> b \<and> b \<le> first_page win)
             \<and> (\<forall>f. pages_forward win = Some f \<longrightarrow> last_page win \<le> f \<and> f \<le> n_pages)
         | Inl e \<Rightarrow> e = OverflowError \<and> 2 ^ 53 \<le> pages_to_show"
proof (cases "compute_window pages_to_show n_pages current")
  case (Inl e)
  then have "e = OverflowError \<and> 2 ^ 53 \<le> \<bar>pages_to_show\<bar>" by (rule compute_window_error)
  with assms(2) Inl show ?thesis by simp
next
  case (Inr win)
  from window_targets [OF assms(2) Inr] Inr show ?thesis by simp
qed

theorem jump_targets_in_range_witness:
  "(1::int) \<le> 100 \<and> (1::int) \<le> 11 \<and> (1::int) \<le> 50 \<and> (50::int) \<le> 100
   \<and> compute_window 11 100 50 =
       Inr \<lparr>first_page = 45, last_page = 55,
            pages_shown = [45, 46, 47, 48, 49, 50, 51, 52, 53, 54, 55],
            pages_back = Some 40, pages_forward = Some 60\<rparr>
   \<and> (1::int) \<le> 40 \<and> (40::int) \<le> 45 \<and> (55::int) \<le> 60 \<and> (60::int) \<le> 100"
  using jump_targets_in_range [of 100 11 50] by (simp add: window_example)

section \<open>The errors of the pagination context\<close>

lemma pages_to_show_error_cases:
  "pages_to_show_error l n =
     (if 0 < int_max_str_digits l \<and> 10 ^ int_max_str_digits l \<le> \<bar>n\<bar>
      then ValueError (digit_limit_message (int_max_str_digits l))
      else ValueError (pages_to_show_message n))"
  by (simp add: pages_to_show_error_def str_int_def pages_to_show_message_def)

lemma messages_differ:
  "justify_content_message v \<noteq> pages_to_show_message n"
  "justify_content_message v \<noteq> digit_limit_message k"
  by (simp_all add: justify_content_message_def pages_to_show_message_def
        digit_limit_message_def)

lemma justify_error_differs:
  "ValueError (justify_content_message v) \<noteq> pages_to_show_error l n"
  by (simp add: pages_to_show_error_cases messages_differ)

lemma rebuild_url_error: "rebuild_url l url extra = Inl e \<Longrightarrow> \<exists>t. e = Propagated t"
  by (auto simp: rebuild_url_def split: sum.splits)

lemma size_classes_error: "size_classes l size_opt = Inl e \<Longrightarrow> \<exists>t. e = Propagated t"
  by (auto simp: size_classes_def split: sum.splits if_splits)

lemma justify_classes_error:
  "justify_classes cs jc = Inl e \<Longrightarrow> e = ValueError (justify_content_message (or_empty jc))"
  by (auto simp: justify_classes_def split: if_splits)

lemma pagination_context_error:
  assumes "1 \<le> pages_to_show"
    and "get_pagination_context l pg pages_to_show url size_opt jc extra pn = Inl e"
  shows "e = OverflowError \<or> (\<exists>t. e = Propagated t)
         \<or> e = ValueError (justify_content_message (or_empty jc))"
proof (cases "compute_window pages_to_show (num_pages (paginator pg)) (number pg)")
  case (Inl e1)
  with assms have "e1 = e" by (simp add: get_pagination_context_def)
  with Inl compute_window_error show ?thesis by blast
next
  case win: (Inr win)
  show ?thesis
  proof (cases "rebuild_url l url extra")
    case (Inl e2)
    with assms win have "e2 = e" by (simp add: get_pagination_context_def)
    with Inl rebuild_url_error show ?thesis by blast
  next
    case u: (Inr u)
    show ?thesis
    proof (cases "size_classes l size_opt")
      case (Inl e3)
      with assms win u have "e3 = e" by (simp add: get_pagination_context_def)
      with Inl size_classes_error show ?thesis by blast
    next
      case cs: (Inr cs)
      show ?thesis
      proof (cases "justify_classes cs jc")
        case (Inl e4)
        with assms win u cs have "e4 = e" by (simp add: get_pagination_context_def)
        with Inl justify_classes_error show ?thesis by blast
      next
        case (Inr cs1)
        with assms win u cs show ?thesis by (simp add: get_pagination_context_def)
      qed
    qed
  qed
qed

text \<open>
  A returned context holds the window that \<open>compute_window\<close> computed for the page, so
  what holds of every computed window holds of every returned context.
\<close>

lemma pagination_context_window:
  assumes "get_pagination_context l pg pages_to_show url size_opt jc extra pn = Inr r"
  shows "compute_window pages_to_show (num_pages (paginator pg)) (number pg)
           = Inr (window.truncate r)
       \<and> ctx_num_pages r = num_pages (paginator pg) \<and> current_page r = number pg
       \<and> parameter_name r = pn"
proof -
  from assms obtain win u cs cs1 where
    win: "compute_window pages_to_show (num_pages (paginator pg)) (number pg) = Inr win"
    and r: "r = window.extend win (pagination_context.fields u (num_pages (paginator pg))
                 (number pg) (join_space cs1) pn)"
    by (auto simp: get_pagination_context_def split: if_splits sum.splits)
  have "window.truncate r = win"
    by (cases win) (simp add: r window.defs pagination_context.defs)
  with win r show ?thesis by (simp add: window.defs pagination_context.defs)
qed

lemma py_lib_digits: "int_max_str_digits py_lib = 4300"
  by (simp add: py_lib_def)

lemma digit_limit_message_default:
  "digit_limit_message 4300 =
     ''Exceeds the limit (4300 digits) for integer string conversion; ''
       @ ''use sys.set_int_max_str_digits() to increase the limit''"
  by code_simp

lemma pages_to_show_message_zero:
  "pages_to_show_message 0
     = ''Pagination pages_to_show should be a positive integer, you specified 0.''"
  by code_simp

lemma beyond_digit_limit:
  assumes "0 < int_max_str_digits l"
  shows "get_pagination_context l pg (- (10 ^ int_max_str_digits l)) url size_opt jc extra pn
           = Inl (ValueError (digit_limit_message (int_max_str_digits l)))"
proof -
  have "- (10 ^ int_max_str_digits l) < (1::int)"
    by (rule less_le_trans [of _ 0]) simp_all
  moreover have "(10::int) ^ int_max_str_digits l \<le> \<bar>- (10 ^ int_max_str_digits l)\<bar>"
    by simp
  ultimately show ?thesis
    using assms by (simp add: get_pagination_context_def pages_to_show_error_cases)
qed

text \<open>
  C4.  The claim: \<open>get_pagination_context\<close> fails with the \<open>ValueError\<close> whose message
  says that \<open>pages_to_show\<close> should be a positive integer if and only if the integer
  \<open>pages_to_show\<close> is below 1.  The message names the value, and the interpreter refuses
  to format an integer of more digits than its limit: at \<open>pages_to_show = -(10 ^ 4300)\<close>,
  under the default limit of 4300 digits, the call fails with the \<open>ValueError\<close> of the
  conversion, whose message is another.
\<close>

theorem huge_negative_pages_to_show_hits_digit_limit:
  "get_pagination_context py_lib \<lparr>paginator = \<lparr>num_pages = 5\<rparr>, number = 1\<rparr>
       (- (10 ^ 4300)) None None None None ''page''
     = Inl (ValueError
         (''Exceeds the limit (4300 digits) for integer string conversion; ''
            @ ''use sys.set_int_max_str_digits() to increase the limit''))"
proof -
  have "0 < int_max_str_digits py_lib" unfolding py_lib_digits by (rule zero_less_numeral)
  from beyond_digit_limit [OF this, of "\<lparr>paginator = \<lparr>num_pages = 5\<rparr>, number = 1\<rparr>"
      None None None None "''page''"]
  show ?thesis unfolding py_lib_digits digit_limit_message_default .
qed

text \<open>
  C4, as the source has it.  \<open>get_pagination_context\<close> fails with the \<open>ValueError\<close> that
  line 737 raises if and only if the integer \<open>pages_to_show\<close> is below 1, whatever the
  other arguments and the collaborators are.  The message of that \<open>ValueError\<close> says that
  \<open>pages_to_show\<close> should be a positive integer and names the value when the value has
  no more digits than the interpreter's limit (or there is no limit); beyond the limit it
  is the message of the conversion.  In particular \<open>pages_to_show = 0\<close> fails with the
  message for 0.
\<close>

theorem pages_to_show_rejected_iff_below_one:
  "(get_pagination_context l pg pages_to_show url size_opt jc extra pn
      = Inl (pages_to_show_error l pages_to_show)) = (pages_to_show < 1)
   \<and> (int_max_str_digits l = 0 \<or> \<bar>pages_to_show\<bar> < 10 ^ int_max_str_digits l \<longrightarrow>
        pages_to_show_error l pages_to_show = ValueError (pages_to_show_message pages_to_show))
   \<and> (0 < int_max_str_digits l \<and> 10 ^ int_max_str_digits l \<le> \<bar>pages_to_show\<bar> \<longrightarrow>
        pages_to_show_error l pages_to_show
          = ValueError (digit_limit_message (int_max_str_digits l)))
   \<and> get_pagination_context l pg 0 url size_opt jc extra pn
      = Inl (ValueError
          ''Pagination pages_to_show should be a positive integer, you specified 0.'')"
proof -
  have 1: "get_pagination_context l pg pages_to_show url size_opt jc extra pn
      \<noteq> Inl (pages_to_show_error l pages_to_show)" if "1 \<le> pages_to_show"
  proof
    assume "get_pagination_context l pg pages_to_show url size_opt jc extra pn
      = Inl (pages_to_show_error l pages_to_show)"
    from pagination_context_error [OF that this] show False
      using justify_error_differs [of "or_empty jc" l pages_to_show]
      by (auto simp: pages_to_show_error_cases split: if_splits)
  qed
  have 2: "get_pagination_context l pg pages_to_show url size_opt jc extra pn
      = Inl (pages_to_show_error l pages_to_show)" if "pages_to_show < 1"
    using that by (simp add: get_pagination_context_def)
  have 3: "pages_to_show_error l pages_to_show = ValueError (pages_to_show_message pages_to_show)"
    if "int_max_str_digits l = 0 \<or> \<bar>pages_to_show\<bar> < 10 ^ int_max_str_digits l"
    using that by (auto simp: pages_to_show_error_cases)
  have 4: "pages_to_show_error l pages_to_show
          = ValueError (digit_limit_message (int_max_str_digits l))"
    if "0 < int_max_str_digits l \<and> 10 ^ int_max_str_digits l \<le> \<bar>pages_to_show\<bar>"
    using that by (simp add: pages_to_show_error_cases)
  have "\<not> (10::int) ^ int_max_str_digits l \<le> 0"
    by (simp add: not_le)
  then have "pages_to_show_error l 0 = ValueError (pages_to_show_message 0)"
    by (simp add: pages_to_show_error_cases)
  then have 5: "get_pagination_context l pg 0 url size_opt jc extra pn
      = Inl (ValueError
          ''Pagination pages_to_show should be a positive integer, you specified 0.'')"
    by (simp add: get_pagination_context_def pages_to_show_message_zero)
  from 1 2 have "(get_pagination_context l pg pages_to_show url size_opt jc extra pn
      = Inl (pages_to_show_error l pages_to_show)) = (pages_to_show < 1)"
    by (cases "pages_to_show < 1") simp_all
  with 3 4 5 show ?thesis by blast
qed


theorem pages_to_show_rejected_iff_below_one_witness:
  "(int_max_str_digits py_lib = 0 \<or> \<bar>0::int\<bar> < 10 ^ int_max_str_digits py_lib)
   \<and> get_pagination_context py_lib \<lparr>paginator = \<lparr>num_pages = 5\<rparr>, number = 1\<rparr> 0
        None None None None ''page''
       = Inl (ValueError (pages_to_show_message 0))
   \<and> (0 < int_max_str_digits py_lib
        \<and> 10 ^ int_max_str_digits py_lib \<le> \<bar>- (10 ^ int_max_str_digits py_lib) :: int\<bar>)
   \<and> get_pagination_context py_lib \<lparr>paginator = \<lparr>num_pages = 5\<rparr>, number = 1\<rparr>
        (- (10 ^ int_max_str_digits py_lib)) None None None None ''page''
       = Inl (ValueError (digit_limit_message (int_max_str_digits py_lib)))
   \<and> \<not> (11::int) < 1
   \<and> get_pagination_context py_lib \<lparr>paginator = \<lparr>num_pages = 5\<rparr>, number = 1\<rparr> 11
        None None None None ''page''
       \<noteq> Inl (pages_to_show_error py_lib 11)"
proof -
  let ?pg = "\<lparr>paginator = \<lparr>num_pages = 5\<rparr>, number = 1\<rparr>"
  let ?L = "int_max_str_digits py_lib"
  let ?big = "- (10 ^ ?L) :: int"
  have small: "?L = 0 \<or> \<bar>0::int\<bar> < 10 ^ ?L" by simp
  have pos: "0 < ?L" unfolding py_lib_digits by (rule zero_less_numeral)
  have big: "0 < ?L \<and> 10 ^ ?L \<le> \<bar>?big\<bar>" using pos by simp
  have neg: "?big < 1" by (rule less_le_trans [of _ 0]) simp_all
  note t0 = pages_to_show_rejected_iff_below_one [of py_lib ?pg 0 None None None None "''page''"]
  note t1 = pages_to_show_rejected_iff_below_one [of py_lib ?pg ?big None None None None "''page''"]
  note t2 = pages_to_show_rejected_iff_below_one [of py_lib ?pg 11 None None None None "''page''"]
  from t0 small have a: "get_pagination_context py_lib ?pg 0 None None None None ''page''
       = Inl (ValueError (pages_to_show_message 0))"
    by simp
  from t1 neg have "get_pagination_context py_lib ?pg ?big None None None None ''page''
       = Inl (pages_to_show_error py_lib ?big)"
    by blast
  moreover from t1 big have "pages_to_show_error py_lib ?big
       = ValueError (digit_limit_message ?L)"
    by blast
  ultimately have b: "get_pagination_context py_lib ?pg ?big None None None None ''page''
       = Inl (ValueError (digit_limit_message ?L))"
    by (rule trans [OF _ arg_cong [where f = Inl]])
  have n: "\<not> (11::int) < 1" by simp
  from t2 n have c: "get_pagination_context py_lib ?pg 11 None None None None ''page''
       \<noteq> Inl (pages_to_show_error py_lib 11)"
    by blast
  from small a big b n c show ?thesis by blast
qed

text \<open>
  C8.  The claim: every \<open>justify_content\<close> other than \<open>start\<close>, \<open>center\<close> and \<open>end\<close>
  makes \<open>get_pagination_context\<close> raise a \<open>ValueError\<close>.  The source checks the value
  only when it is true: with \<open>justify_content = None\<close>, the default, a call returns its
  context, with the single class \<open>pagination\<close>.
\<close>

theorem absent_justify_content_is_accepted:
  "get_pagination_context py_lib \<lparr>paginator = \<lparr>num_pages = 5\<rparr>, number = 1\<rparr> 11
       None None None None ''page''
     = Inr \<lparr>first_page = 1, last_page = 5, pages_shown = [1, 2, 3, 4, 5],
            pages_back = None, pages_forward = None,
            govbrds_pagination_url = [], ctx_num_pages = 5, current_page = 1,
            pagination_css_classes = ''pagination'', parameter_name = ''page''\<rparr>"
  by code_simp

text \<open>
  C8, as the source has it.  Suppose the call gets as far as the check of
  \<open>justify_content\<close>: \<open>pages_to_show \<ge> 1\<close>, and the window, the URL and the classes of
  \<open>size\<close> were computed without an exception.  Then a non-empty string other than
  \<open>start\<close>, \<open>center\<close> and \<open>end\<close> raises the \<open>ValueError\<close> that names it; one of these
  three values makes the call return, with \<open>justify-content-\<close> and the value as the last
  class; and \<open>None\<close> or the empty string makes the call return with no class added.
\<close>

theorem justify_content_checked_when_given:
  assumes "1 \<le> pages_to_show"
    and "compute_window pages_to_show (num_pages (paginator pg)) (number pg) = Inr win"
    and "rebuild_url l url extra = Inr u"
    and "size_classes l size_opt = Inr classes0"
  shows "(\<forall>v. jc = Some v \<and> v \<noteq> [] \<and> v \<notin> {''start'', ''center'', ''end''} \<longrightarrow>
            get_pagination_context l pg pages_to_show url size_opt jc extra pn
              = Inl (ValueError (justify_content_message v)))
       \<and> (\<forall>v. jc = Some v \<and> v \<in> {''start'', ''center'', ''end''} \<longrightarrow>
            (\<exists>r. get_pagination_context l pg pages_to_show url size_opt jc extra pn = Inr r
                 \<and> pagination_css_classes r
                     = join_space (classes0 @ [''justify-content-'' @ v])))
       \<and> (jc = None \<or> jc = Some [] \<longrightarrow>
            (\<exists>r. get_pagination_context l pg pages_to_show url size_opt jc extra pn = Inr r
                 \<and> pagination_css_classes r = join_space classes0))"
proof -
  have ctx: "get_pagination_context l pg pages_to_show url size_opt jc extra pn =
      (case justify_classes classes0 jc of
         Inl e \<Rightarrow> Inl e
       | Inr classes1 \<Rightarrow>
           Inr (window.extend win
                  (pagination_context.fields u (num_pages (paginator pg)) (number pg)
                     (join_space classes1) pn)))"
    using assms by (simp add: get_pagination_context_def)
  have css: "pagination_css_classes (window.extend win
                  (pagination_context.fields u a b c pn)) = c" for a b c
    by (simp add: window.defs pagination_context.defs)
  show ?thesis
    unfolding ctx
    by (auto simp: justify_classes_def truthy_def or_empty_def css)
qed

theorem justify_content_checked_when_given_witness:
  "(1::int) \<le> 11
   \<and> compute_window 11 (num_pages (paginator \<lparr>paginator = \<lparr>num_pages = 5\<rparr>, number = 1\<rparr>))
        (number \<lparr>paginator = \<lparr>num_pages = 5\<rparr>, number = 1\<rparr>)
       = Inr \<lparr>first_page = 1, last_page = 5, pages_shown = [1, 2, 3, 4, 5],
              pages_back = None, pages_forward = None\<rparr>
   \<and> rebuild_url py_lib None None = Inr []
   \<and> size_classes py_lib None = Inr [''pagination'']
   \<and> get_pagination_context py_lib \<lparr>paginator = \<lparr>num_pages = 5\<rparr>, number = 1\<rparr> 11
        None None (Some ''left'') None ''page''
       = Inl (ValueError (justify_content_message ''left''))
   \<and> (\<exists>r. get_pagination_context py_lib \<lparr>paginator = \<lparr>num_pages = 5\<rparr>, number = 1\<rparr> 11
        None None (Some ''end'') None ''page'' = Inr r
        \<and> pagination_css_classes r = ''pagination justify-content-end'')
   \<and> (\<exists>r. get_pagination_context py_lib \<lparr>paginator = \<lparr>num_pages = 5\<rparr>, number = 1\<rparr> 11
        None None None None ''page'' = Inr r
        \<and> pagination_css_classes r = ''pagination'')"
proof -
  let ?pg = "\<lparr>paginator = \<lparr>num_pages = 5\<rparr>, number = 1\<rparr>"
  have h1: "(1::int) \<le> 11" by simp
  have h2: "compute_window 11 (num_pages (paginator ?pg)) (number ?pg)
       = Inr \<lparr>first_page = 1, last_page = 5, pages_shown = [1, 2, 3, 4, 5],
              pages_back = None, pages_forward = None\<rparr>" by code_simp
  have h3: "rebuild_url py_lib None None = Inr []" by code_simp
  have h4: "size_classes py_lib None = Inr [''pagination'']" by code_simp
  note t = justify_content_checked_when_given [OF h1 h2 h3 h4]
  have a: "get_pagination_context py_lib ?pg 11 None None (Some ''left'') None ''page''
       = Inl (ValueError (justify_content_message ''left''))"
    using t [of "Some ''left''" "''page''"] by simp
  have b: "\<exists>r. get_pagination_context py_lib ?pg 11 None None (Some ''end'') None ''page'' = Inr r
        \<and> pagination_css_classes r = ''pagination justify-content-end''"
    using t [of "Some ''end''" "''page''"] by simp
  have c: "\<exists>r. get_pagination_context py_lib ?pg 11 None None None None ''page'' = Inr r
        \<and> pagination_css_classes r = ''pagination''"
    using t [of None "''page''"] by simp
  from h1 h2 h3 h4 a b c show ?thesis by blast
qed

section \<open>The query of the rebuilt URL\<close>

lemma dict_update_lookup:
  "distinct (map fst other) \<Longrightarrow>
     map_of (dict_update d other) k
       = (case map_of other k of Some v \<Rightarrow> Some v | None \<Rightarrow> map_of d k)"
proof (induction other arbitrary: d)
  case Nil
  then show ?case by (simp add: dict_update_def)
next
  case (Cons kv other)
  obtain k' v' where kv: "kv = (k', v')" by (cases kv)
  from Cons.prems kv have dist: "distinct (map fst other)" and fresh: "k' \<notin> fst ` set other"
    by auto
  have step: "dict_update d ((k', v') # other) = dict_update (AList.update k' v' d) other"
    by (simp add: dict_update_def)
  have ih: "map_of (dict_update (AList.update k' v' d) other) k
      = (case map_of other k of Some v \<Rightarrow> Some v
         | None \<Rightarrow> map_of (AList.update k' v' d) k)"
    by (rule Cons.IH [OF dist])
  show ?case
  proof (cases "k = k'")
    case True
    with fresh have "map_of other k = None" by (simp add: map_of_eq_None_iff)
    with True ih show ?thesis
      by (simp add: kv step update_conv split: option.split)
  next
    case False
    with ih show ?thesis
      by (simp add: kv step update_conv split: option.split)
  qed
qed

lemma dict_update_distinct:
  "distinct (map fst d) \<Longrightarrow> distinct (map fst (dict_update d other))"
proof (induction other arbitrary: d)
  case Nil
  then show ?case by (simp add: dict_update_def)
next
  case (Cons kv other)
  have "dict_update d (kv # other) = dict_update (AList.update (fst kv) (snd kv) d) other"
    by (simp add: dict_update_def case_prod_unfold)
  with Cons show ?case by (simp add: distinct_update)
qed

lemma py_parse_qs_distinct: "distinct (map fst (py_parse_qs qs))"
proof -
  have "distinct (map fst acc) \<Longrightarrow>
        distinct (map fst (fold (\<lambda>(name, v) parsed_result.
             (case map_of parsed_result name of
                Some vs \<Rightarrow> AList.update name (vs @ [v]) parsed_result
              | None \<Rightarrow> AList.update name [v] parsed_result)) ps acc))" for ps acc
    by (induction ps arbitrary: acc) (auto simp: distinct_update split: option.splits)
  from this [of "[]" "parse_qsl qs"] show ?thesis by (simp add: py_parse_qs_def)
qed

lemma collect_lookup:
  "map_of (fold (\<lambda>(name, v) parsed_result.
             (case map_of parsed_result name of
                Some vs \<Rightarrow> AList.update name (vs @ [v]) parsed_result
              | None \<Rightarrow> AList.update name [v] parsed_result)) ps acc) k
     = (case map snd (filter (\<lambda>p. fst p = k) ps) of
          [] \<Rightarrow> map_of acc k
        | v # vs \<Rightarrow>
            (case map_of acc k of
               None \<Rightarrow> Some (v # vs)
             | Some a \<Rightarrow> Some (a @ v # vs)))"
proof (induction ps arbitrary: acc)
  case Nil
  show ?case by simp
next
  case (Cons p ps)
  let ?f = "\<lambda>(name, v) parsed_result.
             (case map_of parsed_result name of
                Some vs \<Rightarrow> AList.update name (vs @ [v]) parsed_result
              | None \<Rightarrow> AList.update name [v] parsed_result)"
  obtain n v where p: "p = (n, v)" by (cases p)
  define x where "x = (case map_of acc n of Some a \<Rightarrow> a @ [v] | None \<Rightarrow> [v])"
  have step: "fold ?f (p # ps) acc = fold ?f ps (AList.update n x acc)"
    by (simp add: p x_def split: option.split)
  have ih: "map_of (fold ?f ps (AList.update n x acc)) k
     = (case map snd (filter (\<lambda>p. fst p = k) ps) of
          [] \<Rightarrow> map_of (AList.update n x acc) k
        | v # vs \<Rightarrow>
            (case map_of (AList.update n x acc) k of
               None \<Rightarrow> Some (v # vs)
             | Some a \<Rightarrow> Some (a @ v # vs)))"
    by (rule Cons.IH)
  have look: "map_of (AList.update n x acc) k = (if k = n then Some x else map_of acc k)"
    by (simp add: update_conv)
  show ?case
    unfolding step ih look
    by (cases "k = n") (auto simp: p x_def split: option.splits list.splits)
qed

lemma py_parse_qs_lookup:
  "map_of (py_parse_qs qs) k
     = (case map snd (filter (\<lambda>p. fst p = k) (parse_qsl qs)) of
          [] \<Rightarrow> None
        | v # vs \<Rightarrow> Some (v # vs))"
  by (simp add: py_parse_qs_def collect_lookup split: list.splits)

text \<open>
  C5.  The claim: for every URL and every dictionary parsed from \<open>extra\<close>, the rebuilt
  query gives each key of that dictionary exactly its values there, and every other key of
  the query of the URL keeps its values.  Three URLs show that this is not so for every
  URL.  In \<open>/list?flag=&sort=name&page=1\<close> the key \<open>flag\<close> has an empty value, \<open>parse_qs\<close>
  does not keep it, and the rebuilt URL has lost it.  On \<open>//[\<close> the call of \<open>urlparse\<close>
  raises \<open>ValueError\<close>, and no URL is built.  On \<open>/?a=\<close> followed by the surrogate
  \<open>U+D800\<close> the URL is parsed and the call of \<open>urlencode\<close> raises \<open>UnicodeEncodeError\<close>.
\<close>

theorem url_rebuild_drops_blank_fields_and_raises:
  "rebuild_url py_lib (Some ''/list?flag=&sort=name&page=1'') (Some ''page=3'')
     = Inr ''/list?sort=name&page=3''
   \<and> rebuild_url py_lib (Some ''//['') (Some ''page=3'') = Inl (Propagated ''ValueError'')
   \<and> rebuild_url py_lib (Some (''/?a='' @ [char_of (237::nat), char_of (160::nat), char_of (128::nat)]))
         (Some ''page=3'')
       = Inl (Propagated ''UnicodeEncodeError'')"
  by code_simp

text \<open>
  C5, as the source has it.  For every URL (absent and empty are parsed as the empty
  string) that \<open>urlparse\<close> parses without raising, and every dictionary \<open>to_merge\<close>
  parsed from \<open>extra\<close> (the empty dictionary when \<open>extra\<close> is false): in the dictionary
  handed to \<open>urlencode\<close> every key of \<open>to_merge\<close> has exactly the values of \<open>to_merge\<close>,
  and every other key has the values that \<open>parse_qs\<close> finds for it in the query of the
  URL; keys stay unique.  When \<open>urlencode\<close> encodes that dictionary without raising, the
  rebuilt URL is the parsed URL with its query replaced by the encoding; when it raises, the
  exception is what the step gives.  What
  \<open>parse_qs\<close> finds for a key are the values, in order, of the fields that \<open>parse_qsl\<close>
  keeps: those with a name, \<open>=\<close> and a non-empty value.  Merging \<open>page=3\<close> into
  \<open>/list?sort=name&page=1\<close> gives \<open>/list?sort=name&page=3\<close>.
\<close>

theorem url_rebuild_replaces_merged_keys:
  assumes "urlparse l (or_empty url) = Inr parts"
    and "to_merge = (if truthy extra then parse_qs l (or_empty extra) else [])"
    and "distinct (map fst to_merge)"
  shows "(\<forall>encoded. urlencode l (merged_params l parts extra) = Inr encoded \<longrightarrow>
             rebuild_url l url extra = Inr (urlunparse l (parts\<lparr>query := encoded\<rparr>)))
       \<and> (\<forall>e. urlencode l (merged_params l parts extra) = Inl e \<longrightarrow>
             rebuild_url l url extra = Inl (Propagated e))
       \<and> (\<forall>k vs. map_of to_merge k = Some vs \<longrightarrow>
             map_of (merged_params l parts extra) k = Some vs)
       \<and> (\<forall>k. map_of to_merge k = None \<longrightarrow>
             map_of (merged_params l parts extra) k = map_of (parse_qs l (query parts)) k)
       \<and> (distinct (map fst (parse_qs l (query parts))) \<longrightarrow>
             distinct (map fst (merged_params l parts extra)))
       \<and> (\<forall>qs k. map_of (py_parse_qs qs) k
              = (case map snd (filter (\<lambda>p. fst p = k) (parse_qsl qs)) of
                   [] \<Rightarrow> None
                 | v # vs \<Rightarrow> Some (v # vs)))
       \<and> rebuild_url py_lib (Some ''/list?sort=name&page=1'') (Some ''page=3'')
           = Inr ''/list?sort=name&page=3''"
proof -
  have m: "merged_params l parts extra = dict_update (parse_qs l (query parts)) to_merge"
    by (simp add: merged_params_def assms(2) dict_update_def)
  have 1: "rebuild_url l url extra = Inr (urlunparse l (parts\<lparr>query := encoded\<rparr>))"
    if "urlencode l (merged_params l parts extra) = Inr encoded" for encoded
    using assms(1) that by (cases parts) (simp add: rebuild_url_def)
  have 0: "rebuild_url l url extra = Inl (Propagated e)"
    if "urlencode l (merged_params l parts extra) = Inl e" for e
    using assms(1) that by (simp add: rebuild_url_def)
  have 2: "map_of (merged_params l parts extra) k = Some vs" if "map_of to_merge k = Some vs"
    for k vs
    using that by (simp add: m dict_update_lookup [OF assms(3)])
  have 3: "map_of (merged_params l parts extra) k = map_of (parse_qs l (query parts)) k"
    if "map_of to_merge k = None" for k
    using that by (simp add: m dict_update_lookup [OF assms(3)])
  have 4: "distinct (map fst (merged_params l parts extra))"
    if "distinct (map fst (parse_qs l (query parts)))"
    using that by (simp add: m dict_update_distinct)
  have 5: "rebuild_url py_lib (Some ''/list?sort=name&page=1'') (Some ''page=3'')
           = Inr ''/list?sort=name&page=3''"
    by code_simp
  from 0 1 2 3 4 5 py_parse_qs_lookup show ?thesis by blast
qed

theorem url_rebuild_replaces_merged_keys_witness:
  "urlparse py_lib (or_empty (Some ''/list?sort=name&page=1''))
     = Inr \<lparr>scheme = [], netloc = [], path = ''/list'', params = [],
            query = ''sort=name&page=1'', fragment = []\<rparr>
   \<and> [(''page'', [''3''])]
       = (if truthy (Some ''page=3'') then parse_qs py_lib (or_empty (Some ''page=3'')) else [])
   \<and> distinct (map fst [(''page'', [''3''])])
   \<and> map_of [(''page'', [''3''])] ''page'' = Some [''3'']
   \<and> map_of [(''page'', [''3''])] ''sort'' = None
   \<and> distinct (map fst (parse_qs py_lib ''sort=name&page=1''))
   \<and> urlencode py_lib (merged_params py_lib
         \<lparr>scheme = [], netloc = [], path = ''/list'', params = [],
          query = ''sort=name&page=1'', fragment = []\<rparr> (Some ''page=3''))
       = Inr ''sort=name&page=3''
   \<and> map_of (merged_params py_lib
         \<lparr>scheme = [], netloc = [], path = ''/list'', params = [],
          query = ''sort=name&page=1'', fragment = []\<rparr> (Some ''page=3'')) ''page''
       = Some [''3'']
   \<and> map_of (merged_params py_lib
         \<lparr>scheme = [], netloc = [], path = ''/list'', params = [],
          query = ''sort=name&page=1'', fragment = []\<rparr> (Some ''page=3'')) ''sort''
       = Some [''name'']
   \<and> distinct (map fst (merged_params py_lib
         \<lparr>scheme = [], netloc = [], path = ''/list'', params = [],
          query = ''sort=name&page=1'', fragment = []\<rparr> (Some ''page=3'')))
   \<and> rebuild_url py_lib (Some ''/list?sort=name&page=1'') (Some ''page=3'')
       = Inr ''/list?sort=name&page=3''
   \<and> urlparse py_lib
         (or_empty (Some (''/?a='' @ [char_of (237::nat), char_of (160::nat), char_of (128::nat)])))
       = Inr \<lparr>scheme = [], netloc = [], path = ''/'', params = [],
              query = ''a='' @ [char_of (237::nat), char_of (160::nat), char_of (128::nat)],
              fragment = []\<rparr>
   \<and> urlencode py_lib (merged_params py_lib
         \<lparr>scheme = [], netloc = [], path = ''/'', params = [],
          query = ''a='' @ [char_of (237::nat), char_of (160::nat), char_of (128::nat)],
          fragment = []\<rparr> (Some ''page=3''))
       = Inl ''UnicodeEncodeError''
   \<and> rebuild_url py_lib
         (Some (''/?a='' @ [char_of (237::nat), char_of (160::nat), char_of (128::nat)]))
         (Some ''page=3'')
       = Inl (Propagated ''UnicodeEncodeError'')"
proof -
  let ?parts = "\<lparr>scheme = [], netloc = [], path = ''/list'', params = [],
            query = ''sort=name&page=1'', fragment = []\<rparr>"
  have h1: "urlparse py_lib (or_empty (Some ''/list?sort=name&page=1'')) = Inr ?parts"
    by code_simp
  have h2: "[(''page'', [''3''])]
       = (if truthy (Some ''page=3'') then parse_qs py_lib (or_empty (Some ''page=3'')) else [])"
    by code_simp
  have h3: "distinct (map fst [(''page'', [''3''])])" by simp
  have q: "parse_qs py_lib ''sort=name&page=1'' = [(''sort'', [''name'']), (''page'', [''1''])]"
    by code_simp
  have h4: "map_of [(''page'', [''3''])] ''page'' = Some [''3'']" by simp
  have h5: "map_of [(''page'', [''3''])] ''sort'' = None" by simp
  have h6: "distinct (map fst (parse_qs py_lib ''sort=name&page=1''))"
    using q by simp
  have h7: "urlencode py_lib (merged_params py_lib ?parts (Some ''page=3''))
       = Inr ''sort=name&page=3''"
    by code_simp
  note t = url_rebuild_replaces_merged_keys [OF h1 h2 h3]
  from t h7 have e: "rebuild_url py_lib (Some ''/list?sort=name&page=1'') (Some ''page=3'')
       = Inr (urlunparse py_lib (?parts\<lparr>query := ''sort=name&page=3''\<rparr>))"
    by blast
  have u: "urlunparse py_lib (?parts\<lparr>query := ''sort=name&page=3''\<rparr>)
       = ''/list?sort=name&page=3''"
    by code_simp
  let ?s = "''/?a='' @ [char_of (237::nat), char_of (160::nat), char_of (128::nat)]"
  let ?sparts = "\<lparr>scheme = [], netloc = [], path = ''/'', params = [],
            query = ''a='' @ [char_of (237::nat), char_of (160::nat), char_of (128::nat)],
            fragment = []\<rparr>"
  have s1: "urlparse py_lib (or_empty (Some ?s)) = Inr ?sparts"
    by code_simp
  have s2: "urlencode py_lib (merged_params py_lib ?sparts (Some ''page=3''))
       = Inl ''UnicodeEncodeError''"
    by code_simp
  from url_rebuild_replaces_merged_keys [OF s1 h2 h3] s2
  have s3: "rebuild_url py_lib (Some ?s) (Some ''page=3'') = Inl (Propagated ''UnicodeEncodeError'')"
    by blast
  from t h4 have a: "map_of (merged_params py_lib ?parts (Some ''page=3'')) ''page'' = Some [''3'']"
    by blast
  from t h5 have "map_of (merged_params py_lib ?parts (Some ''page=3'')) ''sort''
      = map_of (parse_qs py_lib (query ?parts)) ''sort''" by blast
  then have b: "map_of (merged_params py_lib ?parts (Some ''page=3'')) ''sort'' = Some [''name'']"
    by (simp add: q)
  from t h6 have c: "distinct (map fst (merged_params py_lib ?parts (Some ''page=3'')))"
    by simp
  from e u have d: "rebuild_url py_lib (Some ''/list?sort=name&page=1'') (Some ''page=3'')
       = Inr ''/list?sort=name&page=3''" by simp
  from h1 h2 h3 h4 h5 h6 h7 a b c d s1 s2 s3 show ?thesis by blast
qed

section \<open>Settings and renderer resolution\<close>

text \<open>
  C7.  \<open>get_govbrds_setting\<close> returns the value under the name in the host settings when
  the name is a key there; otherwise the value under the name in \<open>GOVBRDS_DEFAULTS\<close> when
  the name is a key there; otherwise the fallback.  Presence of the key decides, not the
  truth of the value.  The function has a value for every name: it cannot raise.
\<close>

theorem setting_cascade:
  "(\<forall>v. host name = Some v \<longrightarrow> get_govbrds_setting (Some host) name fallback = v)
   \<and> (\<forall>v. host name = None \<and> map_of GOVBRDS_DEFAULTS name = Some v \<longrightarrow>
          get_govbrds_setting (Some host) name fallback = v)
   \<and> (host name = None \<and> map_of GOVBRDS_DEFAULTS name = None \<longrightarrow>
          get_govbrds_setting (Some host) name fallback = fallback)
   \<and> get_govbrds_setting None name fallback
        = (case map_of GOVBRDS_DEFAULTS name of Some v \<Rightarrow> v | None \<Rightarrow> fallback)"
  by (simp add: get_govbrds_setting_def)

theorem setting_cascade_witness:
  "[''theme_url'' \<mapsto> PStr ''t.css'', ''wrapper_class'' \<mapsto> PStr [], ''set_placeholder'' \<mapsto> PNone]
       ''wrapper_class'' = Some (PStr [])
   \<and> get_govbrds_setting
         (Some [''theme_url'' \<mapsto> PStr ''t.css'', ''wrapper_class'' \<mapsto> PStr [],
                ''set_placeholder'' \<mapsto> PNone]) ''wrapper_class'' (PStr ''fallback'')
       = PStr []
   \<and> [''theme_url'' \<mapsto> PStr ''t.css'', ''wrapper_class'' \<mapsto> PStr [], ''set_placeholder'' \<mapsto> PNone]
       ''color_mode'' = None
   \<and> map_of GOVBRDS_DEFAULTS ''color_mode'' = Some PNone
   \<and> get_govbrds_setting
         (Some [''theme_url'' \<mapsto> PStr ''t.css'', ''wrapper_class'' \<mapsto> PStr [],
                ''set_placeholder'' \<mapsto> PNone]) ''color_mode'' (PStr ''fallback'')
       = PNone
   \<and> [''theme_url'' \<mapsto> PStr ''t.css'', ''wrapper_class'' \<mapsto> PStr [], ''set_placeholder'' \<mapsto> PNone]
       ''no_such_setting'' = None
   \<and> map_of GOVBRDS_DEFAULTS ''no_such_setting'' = None
   \<and> get_govbrds_setting
         (Some [''theme_url'' \<mapsto> PStr ''t.css'', ''wrapper_class'' \<mapsto> PStr [],
                ''set_placeholder'' \<mapsto> PNone]) ''no_such_setting'' (PStr ''fallback'')
       = PStr ''fallback''"
proof -
  let ?host = "[''theme_url'' \<mapsto> PStr ''t.css'', ''wrapper_class'' \<mapsto> PStr [],
                ''set_placeholder'' \<mapsto> PNone]"
  have h1: "?host ''wrapper_class'' = Some (PStr [])" by simp
  have h2: "?host ''color_mode'' = None" by simp
  have h3: "map_of GOVBRDS_DEFAULTS ''color_mode'' = Some PNone"
    by (simp add: GOVBRDS_DEFAULTS_def)
  have h4: "?host ''no_such_setting'' = None" by simp
  have h5: "map_of GOVBRDS_DEFAULTS ''no_such_setting'' = None"
    by (simp add: GOVBRDS_DEFAULTS_def)
  from setting_cascade [of ?host "''wrapper_class''" "PStr ''fallback''"] h1
  have a: "get_govbrds_setting (Some ?host) ''wrapper_class'' (PStr ''fallback'') = PStr []"
    by blast
  from setting_cascade [of ?host "''color_mode''" "PStr ''fallback''"] h2 h3
  have b: "get_govbrds_setting (Some ?host) ''color_mode'' (PStr ''fallback'') = PNone"
    by blast
  from setting_cascade [of ?host "''no_such_setting''" "PStr ''fallback''"] h4 h5
  have c: "get_govbrds_setting (Some ?host) ''no_such_setting'' (PStr ''fallback'')
      = PStr ''fallback''"
    by blast
  from h1 h2 h3 h4 h5 a b c show ?thesis by blast
qed

text \<open>
  C6.  For a map of renderers with a \<open>default\<close> key and a layout that is a string (the
  empty string when no layout is given), \<open>get_renderer\<close> loads the entry under the layout
  when the layout is a key of the map, whatever the \<open>default\<close> entry is, and the
  \<open>default\<close> entry otherwise.  \<open>get_formset_renderer\<close>, \<open>get_form_renderer\<close> and
  \<open>get_field_renderer\<close> are \<open>get_renderer\<close> on the map they read from the settings.
\<close>

theorem renderer_selected_by_layout:
  assumes "renderers ''default'' = Some dflt"
    and "kwargs ''layout'' = None \<and> layout = [] \<or> kwargs ''layout'' = Some (PStr layout)"
  shows "(\<forall>p. renderers layout = Some p \<longrightarrow>
            renderer_path renderers kwargs = Inr p
            \<and> get_renderer import_attr renderers kwargs = load_renderer import_attr p)
       \<and> (renderers layout = None \<longrightarrow>
            renderer_path renderers kwargs = Inr dflt
            \<and> get_renderer import_attr renderers kwargs = load_renderer import_attr dflt)
       \<and> (\<forall>rs. get_govbrds_setting st ''formset_renderers'' PNone = PDict rs \<longrightarrow>
            get_formset_renderer st import_attr kwargs
              = get_renderer import_attr (map_of rs) kwargs)
       \<and> (\<forall>rs. get_govbrds_setting st ''form_renderers'' PNone = PDict rs \<longrightarrow>
            get_form_renderer st import_attr kwargs
              = get_renderer import_attr (map_of rs) kwargs)
       \<and> (\<forall>rs. get_govbrds_setting st ''field_renderers'' PNone = PDict rs \<longrightarrow>
            get_field_renderer st import_attr kwargs
              = get_renderer import_attr (map_of rs) kwargs)"
proof -
  have path: "renderer_path renderers kwargs
      = Inr (case renderers layout of Some p \<Rightarrow> p | None \<Rightarrow> dflt)"
    using assms by (auto simp: renderer_path_def)
  show ?thesis
    by (simp add: path get_renderer_def get_formset_renderer_def get_form_renderer_def
        get_field_renderer_def)
qed

theorem renderer_selected_by_layout_witness:
  "[''default'' \<mapsto> PStr ''pkg.Default''] ''default'' = Some (PStr ''pkg.Default'')
   \<and> [''layout'' \<mapsto> PStr ''horizontal''] ''layout'' = Some (PStr ''horizontal'')
   \<and> [''default'' \<mapsto> PStr ''pkg.Default''] ''horizontal'' = None
   \<and> get_renderer (\<lambda>m c. Inr (m, c)) [''default'' \<mapsto> PStr ''pkg.Default'']
         [''layout'' \<mapsto> PStr ''horizontal'']
       = (Inr (''pkg'', ''Default'') :: error + string \<times> string)
   \<and> [''default'' \<mapsto> PStr ''pkg.Default'', ''horizontal'' \<mapsto> PStr ''pkg.Horizontal'']
         ''default'' = Some (PStr ''pkg.Default'')
   \<and> [''default'' \<mapsto> PStr ''pkg.Default'', ''horizontal'' \<mapsto> PStr ''pkg.Horizontal'']
         ''horizontal'' = Some (PStr ''pkg.Horizontal'')
   \<and> get_renderer (\<lambda>m c. Inr (m, c))
         [''default'' \<mapsto> PStr ''pkg.Default'', ''horizontal'' \<mapsto> PStr ''pkg.Horizontal'']
         [''layout'' \<mapsto> PStr ''horizontal'']
       = (Inr (''pkg'', ''Horizontal'') :: error + string \<times> string)
   \<and> get_govbrds_setting None ''formset_renderers'' PNone
       = PDict [(''default'', PStr ''django_govbrds.renderers.FormsetRenderer'')]
   \<and> get_govbrds_setting None ''form_renderers'' PNone
       = PDict [(''default'', PStr ''django_govbrds.renderers.FormRenderer'')]
   \<and> get_govbrds_setting None ''field_renderers'' PNone
       = PDict [(''default'', PStr ''django_govbrds.renderers.FieldRenderer'')]
   \<and> get_formset_renderer None (\<lambda>m c. Inr (m, c)) [''layout'' \<mapsto> PStr ''horizontal'']
       = (Inr (''django_govbrds.renderers'', ''FormsetRenderer'') :: error + string \<times> string)
   \<and> get_form_renderer None (\<lambda>m c. Inr (m, c)) [''layout'' \<mapsto> PStr ''horizontal'']
       = (Inr (''django_govbrds.renderers'', ''FormRenderer'') :: error + string \<times> string)
   \<and> get_field_renderer None (\<lambda>m c. Inr (m, c)) [''layout'' \<mapsto> PStr ''horizontal'']
       = (Inr (''django_govbrds.renderers'', ''FieldRenderer'') :: error + string \<times> string)"
proof -
  let ?imp = "(\<lambda>m c. Inr (m, c)) :: string \<Rightarrow> string \<Rightarrow> string + string \<times> string"
  let ?kw = "[''layout'' \<mapsto> PStr ''horizontal'']"
  let ?r1 = "[''default'' \<mapsto> PStr ''pkg.Default'']"
  let ?r2 = "[''default'' \<mapsto> PStr ''pkg.Default'', ''horizontal'' \<mapsto> PStr ''pkg.Horizontal'']"
  have d1: "?r1 ''default'' = Some (PStr ''pkg.Default'')" by simp
  have d2: "?r2 ''default'' = Some (PStr ''pkg.Default'')" by simp
  have k: "?kw ''layout'' = None \<and> ''horizontal'' = [] \<or> ?kw ''layout'' = Some (PStr ''horizontal'')"
    by simp
  have k': "?kw ''layout'' = Some (PStr ''horizontal'')" by simp
  have n1: "?r1 ''horizontal'' = None" by simp
  have s2: "?r2 ''horizontal'' = Some (PStr ''pkg.Horizontal'')" by simp
  have l1: "load_renderer ?imp (PStr ''pkg.Default'') = Inr (''pkg'', ''Default'')"
    by code_simp
  have l2: "load_renderer ?imp (PStr ''pkg.Horizontal'') = Inr (''pkg'', ''Horizontal'')"
    by code_simp
  have g1: "get_govbrds_setting None ''formset_renderers'' PNone
       = PDict [(''default'', PStr ''django_govbrds.renderers.FormsetRenderer'')]"
    by code_simp
  have g2: "get_govbrds_setting None ''form_renderers'' PNone
       = PDict [(''default'', PStr ''django_govbrds.renderers.FormRenderer'')]"
    by code_simp
  have g3: "get_govbrds_setting None ''field_renderers'' PNone
       = PDict [(''default'', PStr ''django_govbrds.renderers.FieldRenderer'')]"
    by code_simp
  note t1 = renderer_selected_by_layout [of ?r1 "PStr ''pkg.Default''" ?kw "''horizontal''" ?imp None, OF d1 k]
  note t2 = renderer_selected_by_layout [of ?r2 "PStr ''pkg.Default''" ?kw "''horizontal''" ?imp None, OF d2 k]
  from t1 n1 l1 have a: "get_renderer ?imp ?r1 ?kw = Inr (''pkg'', ''Default'')" by simp
  from t2 s2 l2 have b: "get_renderer ?imp ?r2 ?kw = Inr (''pkg'', ''Horizontal'')" by simp
  have e: "get_renderer ?imp (map_of [(''default'', PStr p)]) ?kw = load_renderer ?imp (PStr p)"
    for p
    using renderer_selected_by_layout [of "map_of [(''default'', PStr p)]" "PStr p" ?kw "''horizontal''" ?imp None]
    by simp
  from t1 g1 have c1: "get_formset_renderer None ?imp ?kw
      = get_renderer ?imp (map_of [(''default'', PStr ''django_govbrds.renderers.FormsetRenderer'')]) ?kw"
    by blast
  from t1 g2 have c2: "get_form_renderer None ?imp ?kw
      = get_renderer ?imp (map_of [(''default'', PStr ''django_govbrds.renderers.FormRenderer'')]) ?kw"
    by blast
  from t1 g3 have c3: "get_field_renderer None ?imp ?kw
      = get_renderer ?imp (map_of [(''default'', PStr ''django_govbrds.renderers.FieldRenderer'')]) ?kw"
    by blast
  have f1: "get_formset_renderer None ?imp ?kw = Inr (''django_govbrds.renderers'', ''FormsetRenderer'')"
    unfolding c1 e by code_simp
  have f2: "get_form_renderer None ?imp ?kw = Inr (''django_govbrds.renderers'', ''FormRenderer'')"
    unfolding c2 e by code_simp
  have f3: "get_field_renderer None ?imp ?kw = Inr (''django_govbrds.renderers'', ''FieldRenderer'')"
    unfolding c3 e by code_simp
  from d1 k' n1 a d2 s2 b g1 g2 g3 f1 f2 f3 show ?thesis by blast
qed

end
